theory Spec2Isabelle
  imports Main "HOL-Library.Word" "HOL-Library.AList"
begin

unbundle bit_operations_syntax

section \<open>Python values used by the gateway\<close>

text \<open>
  Bytes objects are lists of 8-bit words. Exceptions are values: every \<open>raise\<close> of the
  source is an \<open>Inl\<close> branch of the model. \<open>HTTPException\<close> keeps the status code and
  the response headers; the human-readable \<open>detail\<close> string is left out.
\<close>

type_synonym byte = "8 word"
type_synonym bytes = "byte list"

datatype py_error =
    ValueError
  | NameError string
  | AttributeError string
  | IndexError
  | HTTPException nat "(string \<times> string) list"
  | FecError

text \<open>Truthiness of an \<open>Optional[str]\<close>: \<open>None\<close> and the empty string are falsy.\<close>

fun truthy :: "string option \<Rightarrow> bool" where
  "truthy None = False"
| "truthy (Some s) = (s \<noteq> [])"

text \<open>
  The slice \<open>xs[:c]\<close> for a Python int \<open>c\<close>: a negative bound counts from the end.
\<close>

definition slice_to :: "int \<Rightarrow> 'a list \<Rightarrow> 'a list" where
  "slice_to c xs =
     (if 0 \<le> c then take (nat c) xs else take (length xs - nat (- c)) xs)"

text \<open>\<open>str(n)\<close> for an int, as an f-string prints it.\<close>

definition digit :: "nat \<Rightarrow> char" where
  "digit d = ''0123456789'' ! (d mod 10)"

function str_nat :: "nat \<Rightarrow> string" where
  "str_nat n = (if n < 10 then [digit n] else str_nat (n div 10) @ [digit (n mod 10)])"
  by pat_completeness auto
termination
  by (relation "measure id") auto

declare str_nat.simps [simp del]

definition str_int :: "int \<Rightarrow> string" where
  "str_int i = (if i < 0 then CHR ''-'' # str_nat (nat (- i)) else str_nat (nat i))"

section \<open>config.py: the node registry and placement\<close>

record NodeInfo =
  node_id :: string
  base_url :: string

text \<open>
  \<open>NODES_LIST\<close> is parsed from the environment at import time, so the functions below take
  it as an argument; \<open>default_NODES_LIST\<close> is what the default of \<open>STORAGE_NODES\<close> parses to.
  \<open>NODES\<close> is the dict comprehension \<open>{n.node_id: n for n in NODES_LIST}\<close>: insertion
  ordered, a repeated id keeps its first position and its last value.
\<close>

definition default_NODES_LIST :: "NodeInfo list" where
  "default_NODES_LIST =
     [\<lparr>node_id = ''node1'', base_url = ''http://localhost:9001''\<rparr>,
      \<lparr>node_id = ''node2'', base_url = ''http://localhost:9002''\<rparr>,
      \<lparr>node_id = ''node3'', base_url = ''http://localhost:9003''\<rparr>,
      \<lparr>node_id = ''node4'', base_url = ''http://localhost:9004''\<rparr>,
      \<lparr>node_id = ''node5'', base_url = ''http://localhost:9005''\<rparr>,
      \<lparr>node_id = ''node6'', base_url = ''http://localhost:9006''\<rparr>]"

definition NODES :: "NodeInfo list \<Rightarrow> (string \<times> NodeInfo) list" where
  "NODES NODES_LIST = foldl (\<lambda>d n. AList.update (node_id n) n d) [] NODES_LIST"

definition REGIONS :: "(string \<times> string list) list" where
  "REGIONS =
     [(''us-east'', [''node1'', ''node2'']),
      (''eu-west'', [''node3'', ''node4'']),
      (''ap-south'', [''node5'', ''node6''])]"

text \<open>
  The guard \<open>not preferred_region or preferred_region not in REGIONS\<close> of config.py:
  \<open>region_node_ids\<close> is \<open>None\<close> when it holds and \<open>REGIONS[preferred_region]\<close> otherwise.
\<close>

definition region_node_ids :: "string option \<Rightarrow> string list option" where
  "region_node_ids preferred_region =
     (case preferred_region of
        None \<Rightarrow> None
      | Some r \<Rightarrow> if r = [] then None else map_of REGIONS r)"

definition preferred_nodes :: "NodeInfo list \<Rightarrow> string list \<Rightarrow> NodeInfo list" where
  "preferred_nodes NODES_LIST preferred_node_ids =
     List.map_filter (map_of (NODES NODES_LIST)) preferred_node_ids"

definition other_nodes :: "NodeInfo list \<Rightarrow> string list \<Rightarrow> NodeInfo list" where
  "other_nodes NODES_LIST preferred_node_ids =
     filter (\<lambda>n. node_id n \<notin> set preferred_node_ids) NODES_LIST"

definition get_nodes_for_shards ::
  "NodeInfo list \<Rightarrow> int \<Rightarrow> string option \<Rightarrow> py_error + NodeInfo list" where
  "get_nodes_for_shards NODES_LIST count preferred_region =
     (if count > int (length NODES_LIST) then Inl (HTTPException 500 [])
      else case region_node_ids preferred_region of
        None \<Rightarrow> Inr (slice_to count NODES_LIST)
      | Some preferred_node_ids \<Rightarrow>
          (let pn = preferred_nodes NODES_LIST preferred_node_ids in
           if int (length pn) \<ge> count then Inr (slice_to count pn)
           else Inr (pn @ slice_to (count - int (length pn))
                            (other_nodes NODES_LIST preferred_node_ids))))"

section \<open>main.py: the placement function that shadows the imported one\<close>

text \<open>
  main.py imports \<open>get_nodes_for_shards\<close> from config (line 22) and then defines a function
  of the same name (line 203), which is the one \<open>upload_object\<close> and \<open>complete_multipart\<close>
  call. Its body reads two names that Python resolves when the line runs:

  \<^item> the attribute \<open>region\<close> of a \<open>NodeInfo\<close>, a pydantic model whose only fields are
    \<open>node_id\<close> and \<open>base_url\<close>;
  \<^item> the global \<open>random\<close>, looked up in the module namespace of main.py and then in the
    builtins.

  \<open>main_globals\<close> lists every name main.py binds at module level (imports, assignments,
  \<open>def\<close> and \<open>class\<close> statements, lines 1 to 780).
\<close>

definition main_globals :: "string list" where
  "main_globals =
     [''json'', ''os'', ''time'', ''asyncio'', ''List'', ''Optional'', ''Dict'', ''requests'',
      ''FastAPI'', ''UploadFile'', ''File'', ''HTTPException'', ''Depends'',
      ''StreamingResponse'', ''JSONResponse'', ''CORSMiddleware'', ''BaseModel'',
      ''MetadataManager'', ''Object'', ''Bucket'', ''ec'', ''NodeInfo'', ''NODES'',
      ''NODES_LIST'', ''get_nodes_for_shards'', ''manager'', ''GCScheduler'', ''_gc_scheduler'',
      ''WebSocket'', ''WebSocketDisconnect'', ''logging'', ''logger'', ''app'',
      ''RateLimitMiddleware'', ''rate_limiter'', ''gc_scheduler_instance'',
      ''health_monitor_instance'', ''startup_event'', ''shutdown_event'',
      ''websocket_endpoint'', ''s3_router'', ''meta_mgr'', ''authenticate_user'',
      ''create_user'', ''create_access_token'', ''Token'', ''UserCreate'',
      ''get_current_user'', ''update_last_login'', ''OAuth2PasswordRequestForm'',
      ''timedelta'', ''register'', ''login'', ''get_me'', ''BucketCreate'', ''BucketInfo'',
      ''ObjectInfoSchema'', ''health'', ''list_nodes'', ''get_metrics'', ''get_gc_status'',
      ''get_regions'', ''get_node_health'', ''get_bucket_quota'', ''set_bucket_quota'',
      ''create_bucket'', ''list_buckets'', ''list_objects'', ''upload_object'',
      ''download_object'', ''delete_object'', ''mp_manager'', ''initiate_multipart'',
      ''upload_part'', ''complete_multipart'', ''abort_multipart'', ''run_gc'',
      ''trigger_gc'']"

definition load_global :: "string \<Rightarrow> py_error + unit" where
  "load_global name = (if name \<in> set main_globals then Inr () else Inl (NameError name))"

definition NodeInfo_getattr :: "NodeInfo \<Rightarrow> string \<Rightarrow> py_error + string" where
  "NodeInfo_getattr n attr =
     (if attr = ''node_id'' then Inr (node_id n)
      else if attr = ''base_url'' then Inr (base_url n)
      else Inl (AttributeError attr))"

text \<open>
  The comprehension \<open>[n for n in available_nodes if n.region == preferred_region]\<close>: the
  first failing attribute read ends it.
\<close>

fun region_nodes :: "NodeInfo list \<Rightarrow> string \<Rightarrow> py_error + NodeInfo list" where
  "region_nodes [] r = Inr []"
| "region_nodes (n # ns) r =
     (case NodeInfo_getattr n ''region'' of
        Inl e \<Rightarrow> Inl e
      | Inr v \<Rightarrow>
          (case region_nodes ns r of
             Inl e \<Rightarrow> Inl e
           | Inr rest \<Rightarrow> Inr (if v = r then n # rest else rest)))"

text \<open>
  \<open>random.shuffle(xs)\<close>: the name \<open>random\<close> is loaded first; were it bound, the list would
  be permuted by \<open>shuffle\<close>, the permutation the generator picks, passed in as an argument.
\<close>

definition random_shuffle ::
  "(NodeInfo list \<Rightarrow> NodeInfo list) \<Rightarrow> NodeInfo list \<Rightarrow> py_error + NodeInfo list" where
  "random_shuffle shuffle xs =
     (case load_global ''random'' of Inl e \<Rightarrow> Inl e | Inr _ \<Rightarrow> Inr (shuffle xs))"

definition main_pick_preferred ::
  "(NodeInfo list \<Rightarrow> NodeInfo list) \<Rightarrow> NodeInfo list \<Rightarrow> int \<Rightarrow> string option
     \<Rightarrow> py_error + NodeInfo list" where
  "main_pick_preferred shuffle available_nodes count preferred_region =
     (if truthy preferred_region then
        (case region_nodes available_nodes (the preferred_region) of
           Inl e \<Rightarrow> Inl e
         | Inr rn \<Rightarrow>
             (case random_shuffle shuffle rn of
                Inl e \<Rightarrow> Inl e
              | Inr rn' \<Rightarrow> Inr (slice_to count rn')))
      else Inr [])"

definition main_fill_remaining ::
  "(NodeInfo list \<Rightarrow> NodeInfo list) \<Rightarrow> NodeInfo list \<Rightarrow> int \<Rightarrow> NodeInfo list
     \<Rightarrow> py_error + NodeInfo list" where
  "main_fill_remaining shuffle available_nodes count selected_nodes =
     (if int (length selected_nodes) < count then
        (let remaining_count = count - int (length selected_nodes);
             others = filter (\<lambda>n. n \<notin> set selected_nodes) available_nodes
         in case random_shuffle shuffle others of
              Inl e \<Rightarrow> Inl e
            | Inr others' \<Rightarrow> Inr (selected_nodes @ slice_to remaining_count others'))
      else Inr selected_nodes)"

definition main_get_nodes_for_shards ::
  "(NodeInfo list \<Rightarrow> NodeInfo list) \<Rightarrow> NodeInfo list \<Rightarrow> int \<Rightarrow> string option
     \<Rightarrow> py_error + NodeInfo list" where
  "main_get_nodes_for_shards shuffle NODES_LIST count preferred_region =
     (let available_nodes = map snd (NODES NODES_LIST) in
      if int (length available_nodes) < count then Inl (HTTPException 500 [])
      else case main_pick_preferred shuffle available_nodes count preferred_region of
        Inl e \<Rightarrow> Inl e
      | Inr selected \<Rightarrow>
          (case main_fill_remaining shuffle available_nodes count selected of
             Inl e \<Rightarrow> Inl e
           | Inr selected' \<Rightarrow>
               if int (length selected') < count then Inl (HTTPException 500 [])
               else Inr selected'))"

section \<open>metadata.py: the metadata store\<close>

text \<open>
  One entry of a shard layout, the dict \<open>{"index": i, "node_id": n, "shard_key": k}\<close>. The
  column \<open>shards\<close> holds the JSON text of a list of them; the model keeps the list
  (\<open>json.loads (json.dumps xs) = xs\<close>).
\<close>

record shard_meta =
  sm_index :: nat
  sm_node_id :: string
  sm_shard_key :: string

text \<open>
  A row of table \<open>objects\<close> (class \<open>Object\<close>). \<open>content_hash\<close> is the column the
  gateway writes with raw SQL after the insert; it is \<open>None\<close> (SQL NULL) until then.
\<close>

record object_row =
  row_id :: nat
  bucket_name :: string
  object_key :: string
  version_id :: string
  is_latest :: bool
  size_bytes :: int
  shards :: "shard_meta list"
  content_hash :: "string option"
  created_at :: int

text \<open>A row of table \<open>content_store\<close>, which the gateway reads and writes with raw SQL.\<close>

record content_row =
  c_content_hash :: string
  c_size_bytes :: int
  c_shards :: "shard_meta list"
  refcount :: int

text \<open>
  The database: its tables in row order, the next value of the \<open>objects.id\<close> sequence, and
  the server clock that fills \<open>created_at\<close>. Every method of \<open>MetadataManager\<close> opens a
  session, commits once and closes it; the model takes each such commit as one step from
  one database to the next.
\<close>

record database =
  buckets :: "(string \<times> bool) list"
  objects :: "object_row list"
  content_store :: "content_row list"
  bucket_quotas :: "(string \<times> int \<times> int) list"
  next_id :: nat
  now :: int

definition empty_database :: database where
  "empty_database =
     \<lparr>buckets = [], objects = [], content_store = [], bucket_quotas = [],
      next_id = 1, now = 0\<rparr>"

definition get_bucket :: "database \<Rightarrow> string \<Rightarrow> (string \<times> bool) option" where
  "get_bucket db name = find (\<lambda>b. fst b = name) (buckets db)"

definition create_bucket :: "database \<Rightarrow> string \<Rightarrow> bool \<Rightarrow> database" where
  "create_bucket db name versioning = db\<lparr>buckets := buckets db @ [(name, versioning)]\<rparr>"

text \<open>
  The filter \<open>filter_by(bucket_name=bucket, object_key=key, is_latest=True)\<close> and the
  \<open>.first()\<close> that follows it: the first matching row in table order.
\<close>

definition is_latest_of :: "string \<Rightarrow> string \<Rightarrow> object_row \<Rightarrow> bool" where
  "is_latest_of bucket key r \<longleftrightarrow> bucket_name r = bucket \<and> object_key r = key \<and> is_latest r"

fun mark_first_not_latest :: "string \<Rightarrow> string \<Rightarrow> object_row list \<Rightarrow> object_row list" where
  "mark_first_not_latest bucket key [] = []"
| "mark_first_not_latest bucket key (r # rs) =
     (if is_latest_of bucket key r then r\<lparr>is_latest := False\<rparr> # rs
      else r # mark_first_not_latest bucket key rs)"

text \<open>
  \<open>put_object_metadata\<close>: \<open>ver_id\<close> is the value \<open>str(uuid.uuid4())\<close> draws. The row the
  method returns is the one it inserted.
\<close>

definition put_object_metadata ::
  "database \<Rightarrow> string \<Rightarrow> string \<Rightarrow> int \<Rightarrow> shard_meta list \<Rightarrow> string
     \<Rightarrow> database \<times> object_row" where
  "put_object_metadata db bucket key sz shs ver_id =
     (let obj = \<lparr>row_id = next_id db, bucket_name = bucket, object_key = key,
                  version_id = ver_id, is_latest = True, size_bytes = sz, shards = shs,
                  content_hash = None, created_at = now db\<rparr>
      in (db\<lparr>objects := mark_first_not_latest bucket key (objects db) @ [obj],
              next_id := Suc (next_id db)\<rparr>, obj))"

definition get_object_metadata ::
  "database \<Rightarrow> string \<Rightarrow> string \<Rightarrow> string option \<Rightarrow> object_row option" where
  "get_object_metadata db bucket key ver =
     (if truthy ver then
        find (\<lambda>r. bucket_name r = bucket \<and> object_key r = key \<and> version_id r = the ver)
          (objects db)
      else find (is_latest_of bucket key) (objects db))"

definition list_objects :: "database \<Rightarrow> string \<Rightarrow> object_row list" where
  "list_objects db bucket = filter (\<lambda>r. bucket_name r = bucket \<and> is_latest r) (objects db)"

fun remove_first_latest :: "string \<Rightarrow> string \<Rightarrow> object_row list \<Rightarrow> object_row list" where
  "remove_first_latest bucket key [] = []"
| "remove_first_latest bucket key (r # rs) =
     (if is_latest_of bucket key r then rs else r # remove_first_latest bucket key rs)"

definition delete_object_metadata :: "database \<Rightarrow> string \<Rightarrow> string \<Rightarrow> database \<times> bool" where
  "delete_object_metadata db bucket key =
     (case find (is_latest_of bucket key) (objects db) of
        Some obj \<Rightarrow> (db\<lparr>objects := remove_first_latest bucket key (objects db)\<rparr>, True)
      | None \<Rightarrow> (db, False))"

text \<open>\<open>UPDATE objects SET content_hash = :hash WHERE id = :obj_id\<close>.\<close>

definition set_content_hash :: "database \<Rightarrow> nat \<Rightarrow> string \<Rightarrow> database" where
  "set_content_hash db obj_id h =
     db\<lparr>objects := map (\<lambda>r. if row_id r = obj_id then r\<lparr>content_hash := Some h\<rparr> else r)
                       (objects db)\<rparr>"

section \<open>quota_manager.py: the quota gate\<close>

text \<open>
  The global instance is \<open>QuotaManager(default_max_size_gb=10.0, default_max_objects=10000)\<close>,
  so \<open>default_max_size_bytes = int(10.0 * 1024 * 1024 * 1024)\<close>.
\<close>

definition default_max_size_bytes :: int where
  "default_max_size_bytes = 10737418240"

definition default_max_objects :: int where
  "default_max_objects = 10000"

record quota =
  max_size_bytes :: int
  max_objects :: int

definition get_quota :: "database \<Rightarrow> string \<Rightarrow> quota" where
  "get_quota db bucket =
     (case find (\<lambda>q. fst q = bucket) (bucket_quotas db) of
        Some (_, sz, n) \<Rightarrow> \<lparr>max_size_bytes = sz, max_objects = n\<rparr>
      | None \<Rightarrow> \<lparr>max_size_bytes = default_max_size_bytes, max_objects = default_max_objects\<rparr>)"

text \<open>
  \<open>set_quota\<close>: the upsert \<open>INSERT ... ON CONFLICT (bucket_name) DO UPDATE\<close>.
\<close>

definition set_quota :: "database \<Rightarrow> string \<Rightarrow> int \<Rightarrow> int \<Rightarrow> database" where
  "set_quota d bucket max_size max_objs =
     d\<lparr>bucket_quotas := AList.update bucket (max_size, max_objs) (bucket_quotas d)\<rparr>"

text \<open>
  The usage query: \<open>COUNT(*)\<close> and \<open>COALESCE(SUM(size_bytes), 0)\<close> over the rows of the
  bucket with \<open>is_latest = true\<close>.
\<close>

definition current_objects :: "database \<Rightarrow> string \<Rightarrow> int" where
  "current_objects db bucket = int (length (list_objects db bucket))"

definition current_size :: "database \<Rightarrow> string \<Rightarrow> int" where
  "current_size db bucket = sum_list (map size_bytes (list_objects db bucket))"

record quota_info =
  qi_current_objects :: int
  qi_current_size_bytes :: int
  qi_max_objects :: int
  qi_max_size_bytes :: int
  qi_objects_remaining :: int
  qi_bytes_remaining :: int

definition check_quota :: "database \<Rightarrow> string \<Rightarrow> int \<Rightarrow> py_error + quota_info" where
  "check_quota db bucket additional_size =
     (let q = get_quota db bucket;
          new_size = current_size db bucket + additional_size;
          new_objects = current_objects db bucket + (if additional_size > 0 then 1 else 0)
      in if new_size > max_size_bytes q then
           Inl (HTTPException 507
                  [(''X-Quota-Used'', str_int new_size),
                   (''X-Quota-Limit'', str_int (max_size_bytes q))])
         else if new_objects > max_objects q then
           Inl (HTTPException 507
                  [(''X-Quota-Used'', str_int new_objects),
                   (''X-Quota-Limit'', str_int (max_objects q))])
         else
           Inr \<lparr>qi_current_objects = current_objects db bucket,
                qi_current_size_bytes = current_size db bucket,
                qi_max_objects = max_objects q,
                qi_max_size_bytes = max_size_bytes q,
                qi_objects_remaining = max_objects q - new_objects,
                qi_bytes_remaining = max_size_bytes q - new_size\<rparr>)"

section \<open>ec.py: the erasure codec around zfec\<close>

text \<open>
  \<open>K = 4\<close> data shards and \<open>M = 6\<close> shards in all. The two calls into the zfec library,
  \<open>zfec.Encoder(K, M).encode\<close> and \<open>zfec.Decoder(K, M).decode\<close>, are arguments of the model:
  \<open>fec_encode\<close> maps the K blocks to the M shards, \<open>fec_decode\<close> maps K shards and their
  numbers to the K blocks or raises. \<open>math.ceil(len(data) / K)\<close> is computed on floats in the
  source; the quotient by 4 is exact for every length below \<open>2^53\<close>, and the model takes
  the exact ceiling.
\<close>

definition ec_K :: nat where
  "ec_K = 4"

definition ec_M :: nat where
  "ec_M = 6"

definition chunk_size :: "bytes \<Rightarrow> nat" where
  "chunk_size data = (length data + ec_K - 1) div ec_K"

definition padded_data :: "bytes \<Rightarrow> bytes" where
  "padded_data data = data @ replicate (chunk_size data * ec_K - length data) 0"

definition blocks :: "bytes \<Rightarrow> bytes list" where
  "blocks data =
     map (\<lambda>i. take (chunk_size data) (drop (i * chunk_size data) (padded_data data)))
       [0..<ec_K]"

definition encode_data :: "(bytes list \<Rightarrow> bytes list) \<Rightarrow> bytes \<Rightarrow> bytes list" where
  "encode_data fec_encode data = fec_encode (blocks data)"

definition decode_data ::
  "(bytes list \<Rightarrow> int list \<Rightarrow> py_error + bytes list) \<Rightarrow> bytes list \<Rightarrow> int list \<Rightarrow> int
     \<Rightarrow> py_error + bytes" where
  "decode_data fec_decode shs shard_nums original_size =
     (if length shs < ec_K then Inl ValueError
      else case fec_decode (take ec_K shs) (take ec_K shard_nums) of
        Inl e \<Rightarrow> Inl e
      | Inr recovered_blocks \<Rightarrow> Inr (slice_to original_size (concat recovered_blocks)))"

section \<open>Storage nodes and shard transport\<close>

text \<open>
  The gateway builds the URL \<open>{base_url}/internal/objects/{bucket}/{shard_key}\<close> by pasting
  the bucket and the shard key into an f-string as they are, and hands it to \<open>requests\<close>.
  An HTTP client sends only the part of a URL before its first \<open>#\<close> or \<open>?\<close> as the request
  path (what follows is the fragment or the query), and the routes of the storage node
  (storage_node/main.py, lines 27, 42 and 51) take the key of the file from the path alone.
  \<open>request_path\<close> is that part of the URL. A storage node keeps one file per path: the
  model keys the files of all nodes by \<open>request_path url\<close> and records in \<open>sent\<close> every
  request with the URL the gateway passed. A node whose base URL is in \<open>unreachable\<close>
  answers no request: \<open>requests\<close> raises and the gateway's \<open>except\<close> branch runs. A
  reachable node answers PUT with 200 and stores the bytes, answers DELETE by removing the
  file, and answers GET with the file or 404. Left out: percent-escapes and \<open>.\<close> segments
  in keys, the node's replacing of \<open>..\<close> by \<open>_\<close>, and the directories of the node's file
  system (every path is a file of its own).
\<close>

datatype http_request = PUT string bytes | GET string | DELETE string

record cluster =
  db :: database
  files :: "(string \<times> bytes) list"
  unreachable :: "string list"
  sent :: "http_request list"


definition shard_url :: "NodeInfo \<Rightarrow> string \<Rightarrow> string \<Rightarrow> string" where
  "shard_url node bucket shard_key =
     base_url node @ ''/internal/objects/'' @ bucket @ ''/'' @ shard_key"

definition request_path :: "string \<Rightarrow> string" where
  "request_path url = takeWhile (\<lambda>c. c \<noteq> CHR ''#'' \<and> c \<noteq> CHR ''?'') url"

definition requests_put :: "cluster \<Rightarrow> NodeInfo \<Rightarrow> string \<Rightarrow> bytes \<Rightarrow> cluster \<times> nat option" where
  "requests_put w node url body =
     (let w' = w\<lparr>sent := sent w @ [PUT url body]\<rparr>
      in if base_url node \<in> set (unreachable w) then (w', None)
         else (w'\<lparr>files := AList.update (request_path url) body (files w)\<rparr>, Some 200))"

definition requests_delete :: "cluster \<Rightarrow> NodeInfo \<Rightarrow> string \<Rightarrow> cluster" where
  "requests_delete w node url =
     (let w' = w\<lparr>sent := sent w @ [DELETE url]\<rparr>
      in if base_url node \<in> set (unreachable w) then w'
         else w'\<lparr>files := AList.delete (request_path url) (files w)\<rparr>)"

definition requests_get ::
  "cluster \<Rightarrow> NodeInfo \<Rightarrow> string \<Rightarrow> cluster \<times> (nat \<times> bytes) option" where
  "requests_get w node url =
     (let w' = w\<lparr>sent := sent w @ [GET url]\<rparr>
      in if base_url node \<in> set (unreachable w) then (w', None)
         else case map_of (files w) (request_path url) of
                Some body \<Rightarrow> (w', Some (200, body))
              | None \<Rightarrow> (w', Some (404, [])))"

text \<open>
  The dict an \<open>upload_shard\<close> coroutine returns: \<open>Stored i node_id shard_key\<close> is
  \<open>{"success": True, "index": i, "node_id": ..., "shard_key": ...}\<close>, \<open>Failed i node_id\<close>
  is \<open>{"success": False, "index": i, "node_id": ...}\<close>.
\<close>

datatype upload_result = Stored nat string string | Failed nat string

fun success :: "upload_result \<Rightarrow> bool" where
  "success (Stored i n k) = True"
| "success (Failed i n) = False"

text \<open>
  The comprehension \<open>[{"index": r["index"], "node_id": r["node_id"], "shard_key":
  r["shard_key"]} for r in successful]\<close>; a failed result has no \<open>shard_key\<close>, and the
  comprehension only ever sees successful ones.
\<close>

fun shard_meta_of :: "upload_result list \<Rightarrow> shard_meta list" where
  "shard_meta_of [] = []"
| "shard_meta_of (Stored i n k # rs) =
     \<lparr>sm_index = i, sm_node_id = n, sm_shard_key = k\<rparr> # shard_meta_of rs"
| "shard_meta_of (Failed i n # rs) = shard_meta_of rs"

text \<open>
  One shard PUT, given the shard key the caller formatted: the body shared by
  \<open>upload_shard\<close> of main.py and \<open>upload_shard_real\<close> of s3_api.py.
\<close>

definition put_shard ::
  "cluster \<Rightarrow> string \<Rightarrow> string \<Rightarrow> nat \<Rightarrow> NodeInfo \<Rightarrow> bytes \<Rightarrow> cluster \<times> upload_result" where
  "put_shard w bucket shard_key i node shard_val =
     (case requests_put w node (shard_url node bucket shard_key) shard_val of
        (w', Some status) \<Rightarrow>
          if status = 200 then (w', Stored i (node_id node) shard_key)
          else (w', Failed i (node_id node))
      | (w', None) \<Rightarrow> (w', Failed i (node_id node)))"

text \<open>
  \<open>tasks = [upload_shard(i, nodes[i], shards_data[i]) for i in range(total_shards)]\<close>
  followed by \<open>asyncio.gather\<close>: the model runs the PUTs in index order.
  \<open>shard_key_of i\<close> is the key the coroutine formats for shard \<open>i\<close>.
\<close>

fun gather_uploads ::
  "(nat \<Rightarrow> string) \<Rightarrow> string \<Rightarrow> cluster \<Rightarrow> nat \<Rightarrow> NodeInfo list \<Rightarrow> bytes list
     \<Rightarrow> cluster \<times> upload_result list" where
  "gather_uploads shard_key_of bucket w i (node # nodes) (shard_val # shards_data) =
     (case put_shard w bucket (shard_key_of i) i node shard_val of
        (w', r) \<Rightarrow>
          (case gather_uploads shard_key_of bucket w' (Suc i) nodes shards_data of
             (w'', rs) \<Rightarrow> (w'', r # rs)))"
| "gather_uploads shard_key_of bucket w i nodes shards_data = (w, [])"

section \<open>The write paths\<close>

text \<open>
  Values the code takes from outside: the registry, the permutation \<open>random.shuffle\<close> would
  apply, the two \<open>hashlib\<close> digests as hex strings, and the zfec encoder. The UUIDs that
  \<open>uuid.uuid4()\<close> draws are arguments of the functions that draw them.
\<close>

record runtime =
  rt_NODES_LIST :: "NodeInfo list"
  rt_shuffle :: "NodeInfo list \<Rightarrow> NodeInfo list"
  sha256_hexdigest :: "bytes \<Rightarrow> string"
  md5_hexdigest :: "bytes \<Rightarrow> string"
  fec_encode :: "bytes list \<Rightarrow> bytes list"

datatype json = JStr string | JInt int | JBool bool

text \<open>
  What an endpoint returns: the dict FastAPI serialises (\<open>Json\<close>), or an explicit
  \<open>Response\<close> with its status code and headers (the S3 adapter).
\<close>

datatype response = Json "(string \<times> json) list" | Response nat "(string \<times> string) list"

text \<open>The dedup lookup and the two statements on \<open>content_store\<close>.\<close>

definition existing_content :: "database \<Rightarrow> string \<Rightarrow> content_row option" where
  "existing_content d h = find (\<lambda>c. c_content_hash c = h) (content_store d)"

definition incr_refcount :: "database \<Rightarrow> string \<Rightarrow> database" where
  "incr_refcount d h =
     d\<lparr>content_store :=
         map (\<lambda>c. if c_content_hash c = h then c\<lparr>refcount := refcount c + 1\<rparr> else c)
           (content_store d)\<rparr>"

definition insert_content :: "database \<Rightarrow> string \<Rightarrow> int \<Rightarrow> shard_meta list \<Rightarrow> database" where
  "insert_content d h sz shs =
     d\<lparr>content_store := content_store d @
         [\<lparr>c_content_hash = h, c_size_bytes = sz, c_shards = shs, refcount = 1\<rparr>]\<rparr>"

text \<open>
  The dedup-hit branch, the same statements in \<open>upload_object\<close> (main.py, lines 459 to 480)
  and \<open>put_object_s3\<close> (s3_api.py, lines 151 to 171): bump the refcount and commit, insert
  the version row through \<open>put_object_metadata\<close>, write its \<open>content_hash\<close>. It returns the
  inserted row.
\<close>

definition dedup_hit ::
  "database \<Rightarrow> string \<Rightarrow> string \<Rightarrow> int \<Rightarrow> string \<Rightarrow> content_row \<Rightarrow> string
     \<Rightarrow> database \<times> object_row" where
  "dedup_hit d bucket key sz h existing ver_id =
     (case put_object_metadata (incr_refcount d h) bucket key sz (c_shards existing) ver_id of
        (d', obj) \<Rightarrow> (set_content_hash d' (row_id obj) h, obj))"

text \<open>
  The commit after a successful fan-out (main.py lines 546 to 579, s3_api.py lines 259 to
  291): insert the content row with refcount 1, insert the version row, write its hash.
\<close>

definition commit_new ::
  "database \<Rightarrow> string \<Rightarrow> string \<Rightarrow> int \<Rightarrow> string \<Rightarrow> shard_meta list \<Rightarrow> string
     \<Rightarrow> database \<times> object_row" where
  "commit_new d bucket key sz h shard_meta ver_id =
     (case put_object_metadata (insert_content d h sz shard_meta) bucket key sz shard_meta ver_id of
        (d', obj) \<Rightarrow> (set_content_hash d' (row_id obj) h, obj))"

text \<open>
  The fan-out and the list \<open>successful\<close>. Building \<open>tasks\<close> reads \<open>nodes[i]\<close> for every
  \<open>i\<close> in \<open>range(total_shards)\<close> before any coroutine runs, so a node list that is too
  short raises IndexError before the first PUT.
\<close>

definition fan_out ::
  "(nat \<Rightarrow> string) \<Rightarrow> cluster \<Rightarrow> string \<Rightarrow> NodeInfo list \<Rightarrow> bytes list
     \<Rightarrow> cluster \<times> (py_error + upload_result list)" where
  "fan_out shard_key_of w bucket nodes shards_data =
     (if length nodes < length shards_data then (w, Inl IndexError)
      else case gather_uploads shard_key_of bucket w 0 nodes shards_data of
        (w', results) \<Rightarrow> (w', Inr (filter success results)))"

subsection \<open>main.py: \<open>upload_object\<close> and \<open>complete_multipart\<close>\<close>

text \<open>\<open>b = meta_mgr.get_bucket(bucket)\<close>, created when missing; \<open>b.name\<close> is \<open>bucket\<close>.\<close>

definition ensure_bucket :: "cluster \<Rightarrow> string \<Rightarrow> cluster" where
  "ensure_bucket w bucket =
     (case get_bucket (db w) bucket of
        Some b \<Rightarrow> w
      | None \<Rightarrow> w\<lparr>db := create_bucket (db w) bucket False\<rparr>)"

text \<open>The shard key of \<open>upload_shard\<close>, \<open>f"{key}.{b.name}.shard-{i}"\<close> (lines 514 and 735).\<close>

definition main_shard_key :: "string \<Rightarrow> string \<Rightarrow> nat \<Rightarrow> string" where
  "main_shard_key key bname i = key @ ''.'' @ bname @ ''.shard-'' @ str_nat i"

text \<open>
  Lines 510 to 547 (and 732 to 757): quorum size, fan-out, quorum check, and the layout
  recorded for the shards that were stored.
\<close>

definition main_distribute ::
  "cluster \<Rightarrow> string \<Rightarrow> string \<Rightarrow> string \<Rightarrow> NodeInfo list \<Rightarrow> bytes list
     \<Rightarrow> cluster \<times> (py_error + shard_meta list)" where
  "main_distribute w bucket key consistency nodes shards_data =
     (let total_shards = length shards_data;
          quorum_size = (if consistency = ''strong'' then 4 else total_shards)
      in case fan_out (main_shard_key key bucket) w bucket nodes shards_data of
           (w', Inl e) \<Rightarrow> (w', Inl e)
         | (w', Inr successful) \<Rightarrow>
             if length successful < quorum_size then (w', Inl (HTTPException 502 []))
             else (w', Inr (shard_meta_of successful)))"

definition upload_object ::
  "runtime \<Rightarrow> cluster \<Rightarrow> string \<Rightarrow> string \<Rightarrow> bytes \<Rightarrow> string \<Rightarrow> string option \<Rightarrow> string
     \<Rightarrow> cluster \<times> (py_error + response)" where
  "upload_object rt w0 bucket key file_bytes consistency region ver_id =
     (let w = ensure_bucket w0 bucket;
          sz = int (length file_bytes);
          h = sha256_hexdigest rt file_bytes
      in case check_quota (db w) bucket sz of
           Inl e \<Rightarrow> (w, Inl e)
         | Inr quota_info \<Rightarrow>
             (case existing_content (db w) h of
                Some existing \<Rightarrow>
                  (case dedup_hit (db w) bucket key sz h existing ver_id of
                     (d', obj) \<Rightarrow>
                       (w\<lparr>db := d'\<rparr>,
                        Inr (Json [(''status'', JStr ''ok''), (''bucket'', JStr bucket),
                                   (''key'', JStr key), (''version_id'', JStr (version_id obj)),
                                   (''deduplicated'', JBool True), (''content_hash'', JStr h)])))
              | None \<Rightarrow>
                  (let shards_data = encode_data (fec_encode rt) file_bytes;
                       total_shards = length shards_data
                   in case main_get_nodes_for_shards (rt_shuffle rt) (rt_NODES_LIST rt)
                             (int total_shards) region of
                        Inl e \<Rightarrow> (w, Inl e)
                      | Inr nodes \<Rightarrow>
                          (case main_distribute w bucket key consistency nodes shards_data of
                             (w', Inl e) \<Rightarrow> (w', Inl e)
                           | (w', Inr shard_meta) \<Rightarrow>
                               (case commit_new (db w') bucket key sz h shard_meta ver_id of
                                  (d', obj) \<Rightarrow>
                                    (w'\<lparr>db := d'\<rparr>,
                                     Inr (Json [(''status'', JStr ''ok''), (''bucket'', JStr bucket),
                                                (''key'', JStr key),
                                                (''version_id'', JStr (version_id obj)),
                                                (''shards_stored'', JInt (int (length shard_meta))),
                                                (''consistency'', JStr consistency),
                                                (''quorum_met'', JBool True),
                                                (''deduplicated'', JBool False),
                                                (''content_hash'', JStr h)])))))))"


subsection \<open>s3_api.py: \<open>put_object_s3\<close>\<close>

text \<open>
  The shard key of \<open>upload_shard_real\<close>, \<open>f"{key}/{upload_uuid}/{i}"\<close> (line 230), with
  \<open>upload_uuid = str(uuid.uuid4())\<close> drawn once per call.
\<close>

definition s3_shard_key :: "string \<Rightarrow> string \<Rightarrow> nat \<Rightarrow> string" where
  "s3_shard_key key upload_uuid i = key @ ''/'' @ upload_uuid @ ''/'' @ str_nat i"

definition etag_header :: "string \<Rightarrow> (string \<times> string) list" where
  "etag_header etag = [(''ETag'', CHR 0x22 # etag @ [CHR 0x22])]"

text \<open>
  The S3 adapter calls the placement function of config.py with no region, uses a quorum of
  4, and answers a missed quorum with a 502 response it returns (it does not raise).
\<close>

definition put_object_s3 ::
  "runtime \<Rightarrow> cluster \<Rightarrow> string \<Rightarrow> string \<Rightarrow> bytes \<Rightarrow> string \<Rightarrow> string
     \<Rightarrow> cluster \<times> (py_error + response)" where
  "put_object_s3 rt w bucket key body ver_id upload_uuid =
     (case get_bucket (db w) bucket of
        None \<Rightarrow> (w, Inr (Response 404 []))
      | Some b \<Rightarrow>
          (let sz = int (length body);
               h = sha256_hexdigest rt body;
               etag = md5_hexdigest rt body
           in case existing_content (db w) h of
                Some existing \<Rightarrow>
                  (case dedup_hit (db w) bucket key sz h existing ver_id of
                     (d', obj) \<Rightarrow> (w\<lparr>db := d'\<rparr>, Inr (Response 200 (etag_header etag))))
              | None \<Rightarrow>
                  (let shards_data = encode_data (fec_encode rt) body;
                       total_shards = length shards_data
                   in case get_nodes_for_shards (rt_NODES_LIST rt) (int total_shards) None of
                        Inl e \<Rightarrow> (w, Inl e)
                      | Inr nodes \<Rightarrow>
                          (case fan_out (s3_shard_key key upload_uuid) w bucket nodes
                                  shards_data of
                             (w', Inl e) \<Rightarrow> (w', Inl e)
                           | (w', Inr successful) \<Rightarrow>
                               if length successful < 4 then (w', Inr (Response 502 []))
                               else
                                 (case commit_new (db w') bucket key sz h
                                         (shard_meta_of successful) ver_id of
                                    (d', obj) \<Rightarrow>
                                      (w'\<lparr>db := d'\<rparr>,
                                       Inr (Response 200 (etag_header etag))))))))"

subsection \<open>main.py: \<open>delete_object\<close>; gc_service.py: \<open>cleanup_by_age\<close>\<close>

text \<open>
  The loop over a shard layout that both run: look the node up in \<open>NODES\<close>, skip the shard
  if it is unknown, send DELETE and ignore any failure.
\<close>

fun delete_shards :: "NodeInfo list \<Rightarrow> string \<Rightarrow> cluster \<Rightarrow> shard_meta list \<Rightarrow> cluster" where
  "delete_shards NODES_LIST bucket w [] = w"
| "delete_shards NODES_LIST bucket w (sm # sms) =
     (case map_of (NODES NODES_LIST) (sm_node_id sm) of
        None \<Rightarrow> delete_shards NODES_LIST bucket w sms
      | Some node \<Rightarrow>
          delete_shards NODES_LIST bucket
            (requests_delete w node (shard_url node bucket (sm_shard_key sm))) sms)"

definition delete_object :: "runtime \<Rightarrow> cluster \<Rightarrow> string \<Rightarrow> string \<Rightarrow> cluster \<times> response" where
  "delete_object rt w bucket key =
     (case get_object_metadata (db w) bucket key None of
        None \<Rightarrow> (w, Json [(''status'', JStr ''not_found'')])
      | Some obj \<Rightarrow>
          (let w' = delete_shards (rt_NODES_LIST rt) bucket w (shards obj)
           in (w'\<lparr>db := fst (delete_object_metadata (db w') bucket key)\<rparr>,
               Json [(''status'', JStr ''deleted'')])))"

text \<open>
  \<open>cleanup_by_age\<close>: \<open>cutoff\<close> is \<open>datetime.utcnow() - timedelta(days=RETENTION_DAYS)\<close>.
  \<open>db.delete(obj)\<close> removes the row with the primary key of \<open>obj\<close>.
\<close>

definition old_objects :: "database \<Rightarrow> int \<Rightarrow> object_row list" where
  "old_objects d cutoff = filter (\<lambda>r. \<not> is_latest r \<and> created_at r < cutoff) (objects d)"

definition db_delete :: "database \<Rightarrow> object_row \<Rightarrow> database" where
  "db_delete d obj = d\<lparr>objects := filter (\<lambda>r. row_id r \<noteq> row_id obj) (objects d)\<rparr>"

fun cleanup_rows :: "NodeInfo list \<Rightarrow> cluster \<Rightarrow> object_row list \<Rightarrow> cluster" where
  "cleanup_rows NODES_LIST w [] = w"
| "cleanup_rows NODES_LIST w (obj # objs) =
     (let w' = delete_shards NODES_LIST (bucket_name obj) w (shards obj)
      in cleanup_rows NODES_LIST (w'\<lparr>db := db_delete (db w') obj\<rparr>) objs)"

definition cleanup_by_age :: "runtime \<Rightarrow> cluster \<Rightarrow> int \<Rightarrow> cluster \<times> nat" where
  "cleanup_by_age rt w cutoff =
     (let old = old_objects (db w) cutoff
      in (cleanup_rows (rt_NODES_LIST rt) w old, length old))"

section \<open>The is-latest invariant\<close>

text \<open>
  At most one row per (bucket, key) has \<open>is_latest\<close> set: the keys of the latest rows are
  pairwise different.
\<close>

definition row_key :: "object_row \<Rightarrow> string \<times> string" where
  "row_key r = (bucket_name r, object_key r)"

definition latest_unique :: "object_row list \<Rightarrow> bool" where
  "latest_unique rows \<longleftrightarrow> distinct (map row_key (filter is_latest rows))"

section \<open>The zfec library\<close>

text \<open>
  Modelled from the spec: the two calls into the zfec library, \<open>zfec.Encoder(K, M).encode\<close>
  and \<open>zfec.Decoder(K, M).decode\<close>; zfec is a dependency and none of its code is among the
  repository's files. The spec (4.1) asks for a codec that makes M - K parity blocks from
  K equal data blocks "such that any K of the M blocks reconstructs the K data blocks", and
  that "fails when fewer than K distinct shards are supplied or when indices are
  duplicate/out of range". The model is such a codec, of the kind zfec implements: a
  systematic Reed-Solomon code over GF(2^8) with the polynomial \<open>x^8 + x^4 + x^3 + x^2 + 1\<close>.
  The first four rows of \<open>enc_matrix\<close> copy the data blocks; the last two come from the
  Vandermonde matrix at the points \<open>0, 1, 2, 4, 8, 16\<close> brought to systematic form. The
  decoder puts the shares in the order of their numbers, multiplies them by the inverse of
  the rows of \<open>enc_matrix\<close> they came from, which \<open>decode_table\<close> lists for each of the
  fifteen sets of four share numbers, and raises on the failures the spec names.
  It stands in for the arguments \<open>fec_encode\<close> and \<open>fec_decode\<close> of the functions of ec.py
  wherever a statement needs a codec.
\<close>

text \<open>
  Arithmetic in GF(2^8): addition is XOR, \<open>xtime\<close> multiplies by the generator 2, and
  \<open>gf_mul a x\<close> adds up the multiples \<open>2^i x\<close> for the bits \<open>i\<close> of \<open>a\<close>.
\<close>

definition xtime :: "byte \<Rightarrow> byte" where
  "xtime a = push_bit 1 a XOR (if bit a 7 then 0x1D else 0)"

fun gf_mul_bits :: "nat \<Rightarrow> byte \<Rightarrow> byte \<Rightarrow> byte" where
  "gf_mul_bits 0 a x = 0"
| "gf_mul_bits (Suc n) a x =
     (if bit a 0 then x else 0) XOR gf_mul_bits n (drop_bit 1 a) (xtime x)"

definition gf_mul :: "byte \<Rightarrow> byte \<Rightarrow> byte" where
  "gf_mul a x = gf_mul_bits 8 a x"

fun dot :: "byte list \<Rightarrow> byte list \<Rightarrow> byte" where
  "dot (c # cs) (x # xs) = gf_mul c x XOR dot cs xs"
| "dot cs xs = 0"

definition column :: "nat \<Rightarrow> bytes list \<Rightarrow> byte list" where
  "column p blks = map (\<lambda>b. b ! p) blks"

text \<open>
  A matrix applied to blocks of length \<open>n\<close>: byte \<open>p\<close> of output block \<open>i\<close> is row \<open>i\<close> times
  the bytes \<open>p\<close> of the input blocks.
\<close>

definition apply_matrix :: "byte list list \<Rightarrow> nat \<Rightarrow> bytes list \<Rightarrow> bytes list" where
  "apply_matrix mx n blks = map (\<lambda>row. map (\<lambda>p. dot row (column p blks)) [0..<n]) mx"

definition enc_matrix :: "byte list list" where
  "enc_matrix =
     [[1, 0, 0, 0],
      [0, 1, 0, 0],
      [0, 0, 1, 0],
      [0, 0, 0, 1],
      [119, 64, 56, 14],
      [199, 167, 13, 108]]"

definition zfec_encode :: "bytes list \<Rightarrow> bytes list" where
  "zfec_encode blks = apply_matrix enc_matrix (length (hd blks)) blks"

definition decode_table :: "(nat list \<times> byte list list) list" where
  "decode_table =
     [([0, 1, 2, 3],
       [[1, 0, 0, 0],
        [0, 1, 0, 0],
        [0, 0, 1, 0],
        [0, 0, 0, 1]]),
      ([0, 1, 2, 4],
       [[1, 0, 0, 0],
        [0, 1, 0, 0],
        [0, 0, 1, 0],
        [134, 222, 4, 93]]),
      ([0, 1, 2, 5],
       [[1, 0, 0, 0],
        [0, 1, 0, 0],
        [0, 0, 1, 0],
        [197, 89, 189, 32]]),
      ([0, 1, 3, 4],
       [[1, 0, 0, 0],
        [0, 1, 0, 0],
        [175, 185, 71, 80],
        [0, 0, 1, 0]]),
      ([0, 1, 3, 5],
       [[1, 0, 0, 0],
        [0, 1, 0, 0],
        [19, 34, 154, 170],
        [0, 0, 1, 0]]),
      ([0, 1, 4, 5],
       [[1, 0, 0, 0],
        [0, 1, 0, 0],
        [148, 81, 216, 28],
        [236, 135, 26, 112]]),
      ([0, 2, 3, 4],
       [[1, 0, 0, 0],
        [74, 100, 25, 54],
        [0, 1, 0, 0],
        [0, 0, 1, 0]]),
      ([0, 2, 3, 5],
       [[1, 0, 0, 0],
        [252, 57, 193, 5],
        [0, 1, 0, 0],
        [0, 0, 1, 0]]),
      ([0, 2, 4, 5],
       [[1, 0, 0, 0],
        [214, 35, 119, 131],
        [0, 1, 0, 0],
        [175, 185, 71, 80]]),
      ([0, 3, 4, 5],
       [[1, 0, 0, 0],
        [189, 176, 91, 87],
        [74, 100, 25, 54],
        [0, 1, 0, 0]]),
      ([1, 2, 3, 4],
       [[43, 183, 228, 121],
        [1, 0, 0, 0],
        [0, 1, 0, 0],
        [0, 0, 1, 0]]),
      ([1, 2, 3, 5],
       [[127, 88, 184, 158],
        [1, 0, 0, 0],
        [0, 1, 0, 0],
        [0, 0, 1, 0]]),
      ([1, 2, 4, 5],
       [[215, 155, 242, 191],
        [1, 0, 0, 0],
        [0, 1, 0, 0],
        [205, 107, 231, 64]]),
      ([1, 3, 4, 5],
       [[154, 109, 11, 253],
        [1, 0, 0, 0],
        [196, 179, 173, 219],
        [0, 1, 0, 0]]),
      ([2, 3, 4, 5],
       [[43, 183, 228, 121],
        [101, 125, 47, 54],
        [1, 0, 0, 0],
        [0, 1, 0, 0]])]"

definition valid_sharenums :: "int list \<Rightarrow> bool" where
  "valid_sharenums sharenums \<longleftrightarrow>
     list_all (\<lambda>s. 0 \<le> s \<and> s < int ec_M) sharenums \<and> distinct sharenums"

definition zfec_decode :: "bytes list \<Rightarrow> int list \<Rightarrow> py_error + bytes list" where
  "zfec_decode blks sharenums =
     (if length blks \<noteq> ec_K \<or> length sharenums \<noteq> ec_K then Inl FecError
      else if \<not> valid_sharenums sharenums then Inl FecError
      else if \<not> list_all (\<lambda>b. length b = length (hd blks)) blks then Inl FecError
      else
        (let pairs = sort_key fst (zip (map nat sharenums) blks)
         in case map_of decode_table (map fst pairs) of
              None \<Rightarrow> Inl FecError
            | Some d \<Rightarrow> Inr (apply_matrix d (length (hd blks)) (map snd pairs))))"

text \<open>
  The product of two matrices over the field, and what makes a row of \<open>decode_table\<close>
  right: its matrix is 4 by 4 and a left inverse of the rows of \<open>enc_matrix\<close> that its
  share numbers select.
\<close>

definition mat_mul :: "byte list list \<Rightarrow> byte list list \<Rightarrow> byte list list" where
  "mat_mul d e = map (\<lambda>a. map (\<lambda>j. dot a (map (\<lambda>r. r ! j) e)) [0, 1, 2, 3]) d"

definition identity4 :: "byte list list" where
  "identity4 = [[1, 0, 0, 0], [0, 1, 0, 0], [0, 0, 1, 0], [0, 0, 0, 1]]"

definition square4 :: "byte list list \<Rightarrow> bool" where
  "square4 m \<longleftrightarrow> length m = 4 \<and> list_all (\<lambda>r. length r = 4) m"

definition enc_rows :: "nat list \<Rightarrow> byte list list" where
  "enc_rows s = map (\<lambda>i. enc_matrix ! i) s"

definition decodes :: "nat list \<Rightarrow> byte list list \<Rightarrow> bool" where
  "decodes s d \<longleftrightarrow> square4 d \<and> square4 (enc_rows s) \<and> mat_mul d (enc_rows s) = identity4"

text \<open>
  A runtime for closed examples: the default registry, the identity for \<open>random.shuffle\<close>,
  the bytes written in hex for both digests (a stand-in that, like the digests, gives equal
  strings only for equal bytes), and the codec above.
\<close>

definition hex_digit :: "nat \<Rightarrow> char" where
  "hex_digit d = ''0123456789abcdef'' ! (d mod 16)"

definition hexdigest :: "bytes \<Rightarrow> string" where
  "hexdigest b = concat (map (\<lambda>x. [hex_digit (unat x div 16), hex_digit (unat x)]) b)"

definition example_runtime :: runtime where
  "example_runtime =
     \<lparr>rt_NODES_LIST = default_NODES_LIST, rt_shuffle = id,
      sha256_hexdigest = hexdigest, md5_hexdigest = hexdigest,
      fec_encode = zfec_encode\<rparr>"

section \<open>What a fan-out sends and stores\<close>





text \<open>
  A cluster for closed examples: bucket \<open>b1\<close> exists, nothing is stored, and the nodes
  whose base URLs are listed do not answer.
\<close>

definition example_cluster :: "string list \<Rightarrow> cluster" where
  "example_cluster down =
     \<lparr>db = create_bucket empty_database ''b1'' False, files = [], unreachable = down,
      sent = []\<rparr>"

section \<open>Example states\<close>

text \<open>
  States reached through the endpoints from \<open>example_cluster []\<close>, with all six nodes up.
  \<open>two_keys_one_content\<close>: the byte 07 was PUT through the S3 adapter to \<open>b1/k1\<close> and then
  to \<open>b1/k2\<close>. \<open>two_versions_one_content\<close>: it was PUT twice to \<open>b1/k1\<close>.
  \<open>one_object_quota\<close>: bucket \<open>b1\<close> has the quota \<open>max_objects = 1\<close> and holds one
  object, the empty body PUT through the S3 adapter to \<open>b1/a\<close>.
  \<open>hash_key_written\<close>: the byte 01 was PUT through the S3 adapter to the key \<open>a#x\<close> of
  \<open>b1\<close> (the request \<open>PUT /s3/b1/a%23x\<close>); \<open>hash_key_rewritten\<close>: the byte 02 was then PUT
  to the same key.
\<close>

definition one_key :: cluster where
  "one_key = fst (put_object_s3 example_runtime (example_cluster []) ''b1'' ''k1'' [7] ''v1'' ''u1'')"

definition two_keys_one_content :: cluster where
  "two_keys_one_content = fst (put_object_s3 example_runtime one_key ''b1'' ''k2'' [7] ''v2'' ''u2'')"

definition two_versions_one_content :: cluster where
  "two_versions_one_content =
     fst (put_object_s3 example_runtime one_key ''b1'' ''k1'' [7] ''v2'' ''u2'')"

definition hash_key_written :: cluster where
  "hash_key_written =
     fst (put_object_s3 example_runtime (example_cluster []) ''b1'' ''a#x'' [1] ''v1'' ''u1'')"

definition hash_key_rewritten :: cluster where
  "hash_key_rewritten =
     fst (put_object_s3 example_runtime hash_key_written ''b1'' ''a#x'' [2] ''v2'' ''u2'')"

definition one_object_quota :: cluster where
  "one_object_quota =
     fst (put_object_s3 example_runtime
            ((example_cluster [])\<lparr>db := set_quota (db (example_cluster [])) ''b1'' 1000 1\<rparr>)
            ''b1'' ''a'' [] ''v1'' ''u1'')"

section \<open>Properties of placement\<close>

lemma slice_to_nonneg: "0 \<le> c \<Longrightarrow> slice_to c xs = take (nat c) xs"
  by (simp add: slice_to_def)

lemma load_global_random: "load_global ''random'' = Inl (NameError ''random'')"
  by (simp add: load_global_def main_globals_def)

lemma random_shuffle_raises: "random_shuffle shuffle xs = Inl (NameError ''random'')"
  by (simp add: random_shuffle_def load_global_random)


lemma length_NODES_default: "map snd (NODES default_NODES_LIST) = default_NODES_LIST"
  by (simp add: NODES_def default_NODES_LIST_def)

text \<open>
  C10. The placement function of config.py, the one the S3 path calls, computes its result
  from \<open>count\<close>, \<open>preferred_region\<close> and the registry alone: for a count between 0 and the
  number of registered nodes it returns the first \<open>count\<close> entries of a list fixed by the
  registry, which is the registry itself, in declared order, when the region is unset,
  empty or unknown, and the region's nodes followed by the others when it is known.
\<close>

theorem get_nodes_for_shards_first_count:
  assumes "0 \<le> count" and "count \<le> int (length NODES_LIST)"
  shows "get_nodes_for_shards NODES_LIST count preferred_region =
           Inr (take (nat count)
                  (case region_node_ids preferred_region of
                     None \<Rightarrow> NODES_LIST
                   | Some ids \<Rightarrow> preferred_nodes NODES_LIST ids @ other_nodes NODES_LIST ids))"
proof (cases "region_node_ids preferred_region")
  case None
  with assms show ?thesis
    by (simp add: get_nodes_for_shards_def slice_to_nonneg)
next
  case (Some ids)
  let ?pn = "preferred_nodes NODES_LIST ids"
  show ?thesis
  proof (cases "count \<le> int (length ?pn)")
    case True
    with assms Some show ?thesis
      by (simp add: get_nodes_for_shards_def slice_to_nonneg Let_def)
  next
    case False
    then have "nat count - length ?pn = nat (count - int (length ?pn))"
      by simp
    with False assms Some show ?thesis
      by (simp add: get_nodes_for_shards_def slice_to_nonneg Let_def)
  qed
qed

theorem get_nodes_for_shards_first_count_witness:
  "(0::int) \<le> 6 \<and> 6 \<le> int (length default_NODES_LIST) \<and>
   get_nodes_for_shards default_NODES_LIST 6 None = Inr default_NODES_LIST \<and>
   get_nodes_for_shards default_NODES_LIST 3 (Some ''nowhere'') =
     Inr (take 3 default_NODES_LIST)"
proof -
  have len: "length default_NODES_LIST = 6"
    by (simp add: default_NODES_LIST_def)
  have a: "(0::int) \<le> 6" and a': "(0::int) \<le> 3" by simp_all
  have b: "6 \<le> int (length default_NODES_LIST)" and b': "3 \<le> int (length default_NODES_LIST)"
    by (simp_all add: len)
  have r1: "region_node_ids None = None"
    and r2: "region_node_ids (Some ''nowhere'') = None"
    by (simp_all add: region_node_ids_def REGIONS_def)
  show ?thesis
    using get_nodes_for_shards_first_count [OF a b, of None]
      get_nodes_for_shards_first_count [OF a' b', of "Some ''nowhere''"]
    by (simp add: r1 r2 len)
qed

text \<open>
  The claim as written also covers the function of the same name in main.py. On the default
  registry, with no region, that function does not return the first six nodes: it raises.
\<close>

theorem main_get_nodes_for_shards_not_first_count:
  "main_get_nodes_for_shards id default_NODES_LIST 6 None \<noteq> Inr (take 6 default_NODES_LIST)"
  by (simp add: main_get_nodes_for_shards_def length_NODES_default Let_def
      main_pick_preferred_def main_fill_remaining_def random_shuffle_raises
      default_NODES_LIST_def)

section \<open>Properties of the metadata store\<close>

lemma is_latest_of_key: "is_latest_of b k r \<longleftrightarrow> is_latest r \<and> row_key r = (b, k)"
  by (auto simp: is_latest_of_def row_key_def)

lemma distinct_map_count:
  "distinct (map f xs) \<longleftrightarrow> (\<forall>y. length (filter (\<lambda>x. f x = y) xs) \<le> 1)"
proof (induction xs)
  case Nil
  show ?case by simp
next
  case (Cons x xs)
  have none: "f x \<notin> f ` set xs \<longleftrightarrow> filter (\<lambda>z. f z = f x) xs = []"
    by (auto simp: filter_empty_conv image_iff)
  show ?case
  proof
    assume d: "distinct (map f (x # xs))"
    then have "\<forall>y. length (filter (\<lambda>x. f x = y) xs) \<le> 1"
      using Cons.IH by simp
    moreover from d have "filter (\<lambda>z. f z = f x) xs = []"
      using none by simp
    ultimately show "\<forall>y. length (filter (\<lambda>z. f z = y) (x # xs)) \<le> 1"
      by simp
  next
    assume a: "\<forall>y. length (filter (\<lambda>z. f z = y) (x # xs)) \<le> 1"
    have "length (filter (\<lambda>z. f z = y) xs) \<le> 1" for y
      using a [rule_format, of y] by (simp split: if_splits)
    then have "distinct (map f xs)"
      using Cons.IH by simp
    moreover have "filter (\<lambda>z. f z = f x) xs = []"
      using a [rule_format, of "f x"] by simp
    ultimately show "distinct (map f (x # xs))"
      using none by simp
  qed
qed

text \<open>The invariant in the words of the data model: no key has two latest rows.\<close>

lemma latest_unique_count:
  "latest_unique rs \<longleftrightarrow> (\<forall>b k. length (filter (is_latest_of b k) rs) \<le> 1)"
proof -
  have "filter (\<lambda>r. row_key r = (b, k)) (filter is_latest rs) = filter (is_latest_of b k) rs"
    for b k
    by (auto simp: is_latest_of_key intro: filter_cong)
  then show ?thesis
    by (simp add: latest_unique_def distinct_map_count [of row_key] del: filter_filter)
qed

lemma latest_unique_Cons: "latest_unique (r # rs) \<Longrightarrow> latest_unique rs"
  by (simp add: latest_unique_def split: if_splits)

lemma latest_unique_head:
  "latest_unique (r # rs) \<Longrightarrow> is_latest_of b k r \<Longrightarrow>
     filter (\<lambda>x. is_latest x \<and> row_key x \<noteq> (b, k)) rs = filter is_latest rs"
  by (rule filter_cong) (auto simp: latest_unique_def is_latest_of_key image_iff)

lemma latest_unique_tail_free:
  "latest_unique (r # rs) \<Longrightarrow> is_latest_of b k r \<Longrightarrow> x \<in> set rs \<Longrightarrow> \<not> is_latest_of b k x"
  by (auto simp: latest_unique_def is_latest_of_key image_iff)

lemma latest_after_mark:
  "latest_unique rs \<Longrightarrow>
     filter is_latest (mark_first_not_latest b k rs) =
     filter (\<lambda>r. is_latest r \<and> row_key r \<noteq> (b, k)) rs"
proof (induction rs)
  case Nil
  show ?case by simp
next
  case (Cons r rs)
  show ?case
  proof (cases "is_latest_of b k r")
    case True
    with latest_unique_head [OF Cons.prems True] show ?thesis
      by (simp add: is_latest_of_key)
  next
    case False
    with Cons.IH [OF latest_unique_Cons [OF Cons.prems]] show ?thesis
      by (auto simp: is_latest_of_key)
  qed
qed

text \<open>Under the invariant, flipping the first latest row of a key flips every one.\<close>

lemma mark_first_is_map:
  "latest_unique rs \<Longrightarrow>
     mark_first_not_latest b k rs =
     map (\<lambda>r. if is_latest_of b k r then r\<lparr>is_latest := False\<rparr> else r) rs"
proof (induction rs)
  case Nil
  show ?case by simp
next
  case (Cons r rs)
  show ?case
  proof (cases "is_latest_of b k r")
    case True
    have "map (\<lambda>r. if is_latest_of b k r then r\<lparr>is_latest := False\<rparr> else r) rs = rs"
      using latest_unique_tail_free [OF Cons.prems True] by (simp add: map_idI)
    with True show ?thesis by simp
  next
    case False
    with Cons.IH [OF latest_unique_Cons [OF Cons.prems]] show ?thesis by simp
  qed
qed

lemma remove_first_latest_filter:
  "latest_unique rs \<Longrightarrow>
     remove_first_latest b k rs = filter (\<lambda>r. \<not> is_latest_of b k r) rs"
proof (induction rs)
  case Nil
  show ?case by simp
next
  case (Cons r rs)
  show ?case
  proof (cases "is_latest_of b k r")
    case True
    have "filter (\<lambda>x. \<not> is_latest_of b k x) rs = rs"
      using latest_unique_tail_free [OF Cons.prems True] by (simp add: filter_id_conv)
    with True show ?thesis by simp
  next
    case False
    with Cons.IH [OF latest_unique_Cons [OF Cons.prems]] show ?thesis by simp
  qed
qed

lemma latest_unique_filter: "latest_unique rs \<Longrightarrow> latest_unique (filter P rs)"
proof -
  assume "latest_unique rs"
  then have "distinct (map row_key (filter P (filter is_latest rs)))"
    unfolding latest_unique_def by (rule distinct_map_filter)
  moreover have "filter P (filter is_latest rs) = filter is_latest (filter P rs)"
    by (auto intro: filter_cong)
  ultimately show ?thesis by (simp add: latest_unique_def)
qed

lemma latest_unique_put:
  assumes "latest_unique (objects d)"
  shows "latest_unique (objects (fst (put_object_metadata d b k sz shs v)))"
proof -
  let ?keep = "filter (\<lambda>r. is_latest r \<and> row_key r \<noteq> (b, k)) (objects d)"
  have "distinct (map row_key ?keep)"
    using latest_unique_filter [OF assms, of "\<lambda>r. row_key r \<noteq> (b, k)"]
    by (simp add: latest_unique_def conj_commute)
  moreover have "(b, k) \<notin> set (map row_key ?keep)" by auto
  ultimately show ?thesis
    by (simp add: put_object_metadata_def Let_def latest_unique_def
        latest_after_mark [OF assms] row_key_def)
qed

lemma put_only_latest:
  assumes "latest_unique (objects d)"
  shows "filter (is_latest_of b k) (objects (fst (put_object_metadata d b k sz shs v))) =
           [snd (put_object_metadata d b k sz shs v)]"
proof -
  have "filter (is_latest_of b k) (mark_first_not_latest b k (objects d)) =
        filter (\<lambda>r. row_key r = (b, k)) (filter is_latest (mark_first_not_latest b k (objects d)))"
    by (auto simp: is_latest_of_key intro: filter_cong)
  also have "\<dots> = []"
    by (simp add: latest_after_mark [OF assms])
  finally show ?thesis
    by (simp add: put_object_metadata_def Let_def is_latest_of_def)
qed

lemma put_objects:
  assumes "latest_unique (objects d)"
  shows "objects (fst (put_object_metadata d b k sz shs v)) =
           map (\<lambda>r. if is_latest_of b k r then r\<lparr>is_latest := False\<rparr> else r) (objects d) @
           [snd (put_object_metadata d b k sz shs v)]"
  by (simp add: put_object_metadata_def Let_def mark_first_is_map [OF assms])

lemma delete_objects:
  assumes "latest_unique (objects d)"
  shows "objects (fst (delete_object_metadata d b k)) =
           filter (\<lambda>r. \<not> is_latest_of b k r) (objects d)"
proof (cases "find (is_latest_of b k) (objects d)")
  case None
  then have "filter (\<lambda>r. \<not> is_latest_of b k r) (objects d) = objects d"
    by (auto simp: find_None_iff filter_id_conv)
  with None show ?thesis by (simp add: delete_object_metadata_def)
next
  case (Some obj)
  then show ?thesis
    by (simp add: delete_object_metadata_def remove_first_latest_filter [OF assms])
qed

lemma latest_unique_set_content_hash:
  "latest_unique (objects (set_content_hash d i h)) = latest_unique (objects d)"
proof -
  let ?f = "\<lambda>r. if row_id r = i then r\<lparr>content_hash := Some h\<rparr> else r"
  have "map row_key (filter is_latest (map ?f rs)) = map row_key (filter is_latest rs)" for rs
    by (induction rs) (simp_all add: row_key_def)
  then show ?thesis
    by (simp add: set_content_hash_def latest_unique_def)
qed

text \<open>
  C7. In a database where every (bucket, key) has at most one latest row,
  \<open>put_object_metadata\<close> clears the flag of the prior latest row of the key, changes no
  other row, appends the new row with the flag set, and that row is then the only latest
  row of the key; \<open>delete_object_metadata\<close> removes the latest row of the key and nothing
  else, so no other row becomes latest; writing \<open>content_hash\<close> and the row deletion of
  the garbage collector keep the invariant too. The empty table satisfies it.
\<close>

theorem latest_unique_preserved:
  assumes "latest_unique (objects d)"
  shows "latest_unique (objects (fst (put_object_metadata d b k sz shs v))) \<and>
         objects (fst (put_object_metadata d b k sz shs v)) =
           map (\<lambda>r. if is_latest_of b k r then r\<lparr>is_latest := False\<rparr> else r) (objects d) @
           [snd (put_object_metadata d b k sz shs v)] \<and>
         filter (is_latest_of b k) (objects (fst (put_object_metadata d b k sz shs v))) =
           [snd (put_object_metadata d b k sz shs v)] \<and>
         is_latest (snd (put_object_metadata d b k sz shs v)) \<and>
         latest_unique (objects (fst (delete_object_metadata d b k))) \<and>
         objects (fst (delete_object_metadata d b k)) =
           filter (\<lambda>r. \<not> is_latest_of b k r) (objects d) \<and>
         latest_unique (objects (set_content_hash d i h)) \<and>
         latest_unique (objects (db_delete d obj)) \<and>
         latest_unique (objects empty_database)"
proof -
  have "latest_unique (objects (fst (delete_object_metadata d b k)))"
    by (simp add: delete_objects [OF assms] latest_unique_filter [OF assms])
  moreover have "latest_unique (objects (db_delete d obj))"
    by (simp add: db_delete_def latest_unique_filter [OF assms])
  moreover have "is_latest (snd (put_object_metadata d b k sz shs v))"
    by (simp add: put_object_metadata_def Let_def)
  moreover have "latest_unique (objects empty_database)"
    by (simp add: empty_database_def latest_unique_def)
  ultimately show ?thesis
    using latest_unique_put [OF assms] put_objects [OF assms] put_only_latest [OF assms]
      delete_objects [OF assms] latest_unique_set_content_hash [of d i h] assms
    by simp
qed

theorem latest_unique_preserved_witness:
  "latest_unique (objects (fst (put_object_metadata empty_database ''b'' ''k'' 5 [] ''v1''))) \<and>
   map version_id
     (filter is_latest
        (objects (fst (put_object_metadata
                         (fst (put_object_metadata empty_database ''b'' ''k'' 5 [] ''v1''))
                         ''b'' ''k'' 7 [] ''v2'')))) = [''v2''] \<and>
   map version_id
     (objects (fst (delete_object_metadata
                      (fst (put_object_metadata
                              (fst (put_object_metadata empty_database ''b'' ''k'' 5 [] ''v1''))
                              ''b'' ''k'' 7 [] ''v2''))
                      ''b'' ''k''))) = [''v1'']"
proof -
  let ?d1 = "fst (put_object_metadata empty_database ''b'' ''k'' 5 [] ''v1'')"
  let ?d2 = "fst (put_object_metadata ?d1 ''b'' ''k'' 7 [] ''v2'')"
  have e: "latest_unique (objects empty_database)"
    by (simp add: empty_database_def latest_unique_def)
  have u1: "latest_unique (objects ?d1)"
    by (rule latest_unique_preserved [OF e, THEN conjunct1])
  have u2: "latest_unique (objects ?d2)"
    by (rule latest_unique_preserved [OF u1, THEN conjunct1])
  have o1: "objects ?d1 =
      [\<lparr>row_id = 1, bucket_name = ''b'', object_key = ''k'', version_id = ''v1'',
        is_latest = True, size_bytes = 5, shards = [], content_hash = None, created_at = 0\<rparr>]"
    by (simp add: put_object_metadata_def empty_database_def Let_def)
  have o2: "map version_id (filter is_latest (objects ?d2)) = [''v2'']"
    by (simp add: put_object_metadata_def [of ?d1] o1 Let_def is_latest_of_def)
  have o3: "map version_id (objects (fst (delete_object_metadata ?d2 ''b'' ''k''))) = [''v1'']"
    using latest_unique_preserved [OF u2, THEN conjunct2, THEN conjunct2, THEN conjunct2,
        THEN conjunct2, THEN conjunct2, THEN conjunct1, of "''b''" "''k''"]
    by (simp add: put_object_metadata_def [of ?d1] o1 Let_def is_latest_of_def)
  from u1 o2 o3 show ?thesis by simp
qed

section \<open>Properties of the write path of main.py\<close>


lemma ensure_bucket_frame:
  "files (ensure_bucket w bucket) = files w"
  "sent (ensure_bucket w bucket) = sent w"
  "unreachable (ensure_bucket w bucket) = unreachable w"
  "objects (db (ensure_bucket w bucket)) = objects (db w)"
  "content_store (db (ensure_bucket w bucket)) = content_store (db w)"
  by (simp_all add: ensure_bucket_def create_bucket_def split: option.split)







lemma one_key_facts:
  "existing_content (db one_key) (sha256_hexdigest example_runtime [7]) \<noteq> None"
  "ensure_bucket one_key ''b1'' = one_key"
  by code_simp+



section \<open>Properties of the fan-out and the quorum check\<close>













section \<open>Shard keys\<close>

text \<open>
  The keys \<open>upload_shard_real\<close> formats for two writes that drew different UUIDs differ,
  whatever the object keys and the shard indices: a UUID and a decimal index contain no
  \<open>/\<close>, so the last two segments of a shard key are the UUID and the index.
\<close>

lemma digit_no_slash: "digit m \<noteq> CHR ''/''"
proof -
  have "digit m \<in> set ''0123456789''"
    unfolding digit_def by (rule nth_mem) simp
  then show ?thesis
    by auto
qed

lemma str_nat_no_slash: "CHR ''/'' \<notin> set (str_nat n)"
proof (induction n rule: str_nat.induct)
  case (1 n)
  show ?case
  proof (cases "n < 10")
    case True
    then show ?thesis
      using digit_no_slash [of n] by (simp add: str_nat.simps [of n])
  next
    case False
    with 1 digit_no_slash [of "n mod 10"] show ?thesis
      by (simp add: str_nat.simps [of n])
  qed
qed

lemma split_at_last_slash:
  assumes "a @ CHR ''/'' # x = b @ CHR ''/'' # y"
    and "CHR ''/'' \<notin> set x" and "CHR ''/'' \<notin> set y"
  shows "a = b \<and> x = y"
proof -
  have "takeWhile (\<lambda>c. c \<noteq> CHR ''/'') (rev x @ CHR ''/'' # rev a) = rev x"
    using assms(2) by (subst takeWhile_append2) auto
  then have 1: "takeWhile (\<lambda>c. c \<noteq> CHR ''/'') (rev (a @ CHR ''/'' # x)) = rev x"
    by simp
  have "takeWhile (\<lambda>c. c \<noteq> CHR ''/'') (rev y @ CHR ''/'' # rev b) = rev y"
    using assms(3) by (subst takeWhile_append2) auto
  then have 2: "takeWhile (\<lambda>c. c \<noteq> CHR ''/'') (rev (b @ CHR ''/'' # y)) = rev y"
    by simp
  from 1 2 have "rev x = rev y"
    by (simp only: assms(1))
  then have "x = y"
    by simp
  with assms(1) show ?thesis
    by simp
qed

lemma s3_shard_keys_differ:
  assumes "u1 \<noteq> u2" and "CHR ''/'' \<notin> set u1" and "CHR ''/'' \<notin> set u2"
  shows "s3_shard_key k1 u1 i \<noteq> s3_shard_key k2 u2 j"
proof
  assume "s3_shard_key k1 u1 i = s3_shard_key k2 u2 j"
  then have "(k1 @ CHR ''/'' # u1) @ CHR ''/'' # str_nat i =
      (k2 @ CHR ''/'' # u2) @ CHR ''/'' # str_nat j"
    by (simp add: s3_shard_key_def)
  then have "k1 @ CHR ''/'' # u1 = k2 @ CHR ''/'' # u2"
    using split_at_last_slash str_nat_no_slash by blast
  then have "u1 = u2"
    using split_at_last_slash assms(2,3) by blast
  with assms(1) show False
    by simp
qed

text \<open>
  C1. \<open>upload_shard_real\<close> puts the drawn \<open>upload_uuid\<close> into the shard key, and pastes
  bucket and shard key into the URL unquoted. For an object key with a \<open>#\<close> the request
  path ends before the UUID: the six shards of a write to \<open>b1/a#x\<close> are stored under the
  path \<open>/internal/objects/b1/a\<close> of their nodes, whatever UUID was drawn. The second write
  to the key replaces the shards of the first; the row of version \<open>v1\<close> still records
  the keys with \<open>u1\<close>, and a GET for its first shard returns the byte of the second write.
\<close>

theorem shard_paths_repeat:
  "map (\<lambda>r. (version_id r, is_latest r, map sm_shard_key (shards r)))
     (objects (db hash_key_rewritten)) =
     [(''v1'', False, [''a#x/u1/0'', ''a#x/u1/1'', ''a#x/u1/2'', ''a#x/u1/3'', ''a#x/u1/4'',
                       ''a#x/u1/5'']),
      (''v2'', True, [''a#x/u2/0'', ''a#x/u2/1'', ''a#x/u2/2'', ''a#x/u2/3'', ''a#x/u2/4'',
                      ''a#x/u2/5''])] \<and>
   files hash_key_written =
     [(''http://localhost:9001/internal/objects/b1/a'', [1]),
      (''http://localhost:9002/internal/objects/b1/a'', [0]),
      (''http://localhost:9003/internal/objects/b1/a'', [0]),
      (''http://localhost:9004/internal/objects/b1/a'', [0]),
      (''http://localhost:9005/internal/objects/b1/a'', [119]),
      (''http://localhost:9006/internal/objects/b1/a'', [199])] \<and>
   files hash_key_rewritten =
     [(''http://localhost:9001/internal/objects/b1/a'', [2]),
      (''http://localhost:9002/internal/objects/b1/a'', [0]),
      (''http://localhost:9003/internal/objects/b1/a'', [0]),
      (''http://localhost:9004/internal/objects/b1/a'', [0]),
      (''http://localhost:9005/internal/objects/b1/a'', [238]),
      (''http://localhost:9006/internal/objects/b1/a'', [147])] \<and>
   snd (requests_get hash_key_rewritten (hd default_NODES_LIST)
          (shard_url (hd default_NODES_LIST) ''b1'' ''a#x/u1/0'')) = Some (200, [2])"
  by code_simp

section \<open>Deleting shards that are still referenced\<close>

text \<open>
  C2. Neither \<open>delete_object\<close> nor \<open>cleanup_by_age\<close> reads or writes \<open>content_store\<close>:
  both send DELETE for every shard of the version row they remove. In
  \<open>two_keys_one_content\<close> the content row has refcount 2 and six shards on the nodes;
  after DELETE of \<open>b1/k1\<close> the refcount is still 2, the row of \<open>b1/k2\<close> still points at
  the six shards, and no node holds any of them. In \<open>two_versions_one_content\<close> the
  collector removes the superseded version \<open>v1\<close> and, with it, the shards of the latest
  version \<open>v2\<close>, the refcount staying at 2.
\<close>

theorem shards_deleted_while_referenced:
  "map refcount (content_store (db two_keys_one_content)) = [2] \<and>
   map fst (files two_keys_one_content) =
     [''http://localhost:9001/internal/objects/b1/k1/u1/0'',
      ''http://localhost:9002/internal/objects/b1/k1/u1/1'',
      ''http://localhost:9003/internal/objects/b1/k1/u1/2'',
      ''http://localhost:9004/internal/objects/b1/k1/u1/3'',
      ''http://localhost:9005/internal/objects/b1/k1/u1/4'',
      ''http://localhost:9006/internal/objects/b1/k1/u1/5''] \<and>
   map refcount
     (content_store (db (fst (delete_object example_runtime two_keys_one_content ''b1'' ''k1'')))) =
     [2] \<and>
   map object_key
     (objects (db (fst (delete_object example_runtime two_keys_one_content ''b1'' ''k1'')))) =
     [''k2''] \<and>
   files (fst (delete_object example_runtime two_keys_one_content ''b1'' ''k1'')) = [] \<and>
   map refcount (content_store (db two_versions_one_content)) = [2] \<and>
   map refcount
     (content_store (db (fst (cleanup_by_age example_runtime two_versions_one_content 1)))) = [2] \<and>
   map (\<lambda>r. (version_id r, is_latest r))
     (objects (db (fst (cleanup_by_age example_runtime two_versions_one_content 1)))) =
     [(''v2'', True)] \<and>
   files (fst (cleanup_by_age example_runtime two_versions_one_content 1)) = []"
  by code_simp

section \<open>The quota gate\<close>

lemma check_quota_raises_iff:
  "(\<exists>hs. check_quota d bucket additional_size = Inl (HTTPException 507 hs)) \<longleftrightarrow>
     current_size d bucket + additional_size > max_size_bytes (get_quota d bucket) \<or>
     current_objects d bucket + (if additional_size > 0 then 1 else 0) >
       max_objects (get_quota d bucket)"
  by (auto simp: check_quota_def Let_def)

text \<open>
  C8. \<open>check_quota\<close> counts the proposed write as an object only when
  \<open>additional_size > 0\<close>. In \<open>one_object_quota\<close> the bucket may hold one object and holds
  one. A one-byte write is refused with 507 and the headers \<open>X-Quota-Used: 2\<close>,
  \<open>X-Quota-Limit: 1\<close>; a zero-byte write to another key passes the gate, is committed as a
  dedup hit, and leaves the bucket with two objects. A one-byte PUT through the S3 adapter,
  which never calls \<open>check_quota\<close>, is stored too.
\<close>

theorem quota_gate_misses_writes:
  "check_quota (db one_object_quota) ''b1'' 1 =
     Inl (HTTPException 507 [(''X-Quota-Used'', ''2''), (''X-Quota-Limit'', ''1'')]) \<and>
   max_objects (get_quota (db one_object_quota) ''b1'') = 1 \<and>
   current_objects (db one_object_quota) ''b1'' = 1 \<and>
   snd (upload_object example_runtime one_object_quota ''b1'' ''other'' [] ''strong'' None ''v2'') =
     Inr (Json [(''status'', JStr ''ok''), (''bucket'', JStr ''b1''), (''key'', JStr ''other''),
                (''version_id'', JStr ''v2''), (''deduplicated'', JBool True),
                (''content_hash'', JStr [])]) \<and>
   current_objects
     (db (fst (upload_object example_runtime one_object_quota ''b1'' ''other'' [] ''strong''
                 None ''v2''))) ''b1'' = 2 \<and>
   snd (put_object_s3 example_runtime one_object_quota ''b1'' ''c'' [7] ''v3'' ''u3'') =
     Inr (Response 200 (etag_header ''07'')) \<and>
   current_objects
     (db (fst (put_object_s3 example_runtime one_object_quota ''b1'' ''c'' [7] ''v3'' ''u3'')))
     ''b1'' = 2"
  by code_simp

section \<open>The dedup hit\<close>

lemma dedup_hit_rows:
  "content_store (fst (dedup_hit d bucket key sz h e ver_id)) =
     map (\<lambda>c. if c_content_hash c = h then c\<lparr>refcount := refcount c + 1\<rparr> else c)
       (content_store d) \<and>
   objects (fst (dedup_hit d bucket key sz h e ver_id)) =
     map (\<lambda>r. if row_id r = next_id d then r\<lparr>content_hash := Some h\<rparr> else r)
       (mark_first_not_latest bucket key (objects d)) @
     [\<lparr>row_id = next_id d, bucket_name = bucket, object_key = key, version_id = ver_id,
       is_latest = True, size_bytes = sz, shards = c_shards e, content_hash = Some h,
       created_at = now d\<rparr>] \<and>
   version_id (snd (dedup_hit d bucket key sz h e ver_id)) = ver_id"
  by (simp add: dedup_hit_def put_object_metadata_def incr_refcount_def set_content_hash_def
      Let_def)

lemma find_append_None: "find P xs = None \<Longrightarrow> find P (xs @ ys) = find P ys"
  by (induction xs) (simp_all split: if_splits)

lemma get_bucket_ensured: "\<exists>b. get_bucket (db (ensure_bucket w bucket)) bucket = Some b"
proof (cases "get_bucket (db w) bucket")
  case None
  then have n: "find (\<lambda>b. fst b = bucket) (buckets (db w)) = None"
    by (simp add: get_bucket_def)
  have "get_bucket (db (ensure_bucket w bucket)) bucket = Some (bucket, False)"
    by (simp add: ensure_bucket_def get_bucket_def create_bucket_def n find_append_None [OF n])
  then show ?thesis by blast
next
  case (Some b)
  then show ?thesis
    by (simp add: ensure_bucket_def)
qed

lemma upload_object_hit:
  assumes "check_quota (db (ensure_bucket w bucket)) bucket (int (length file_bytes)) = Inr qi"
    and "existing_content (db (ensure_bucket w bucket)) (sha256_hexdigest rt file_bytes) = Some e"
  shows "upload_object rt w bucket key file_bytes consistency region ver_id =
           ((ensure_bucket w bucket)
              \<lparr>db := fst (dedup_hit (db (ensure_bucket w bucket)) bucket key
                            (int (length file_bytes)) (sha256_hexdigest rt file_bytes) e ver_id)\<rparr>,
            Inr (Json [(''status'', JStr ''ok''), (''bucket'', JStr bucket), (''key'', JStr key),
                       (''version_id'', JStr ver_id), (''deduplicated'', JBool True),
                       (''content_hash'', JStr (sha256_hexdigest rt file_bytes))]))"
  using assms dedup_hit_rows [of "db (ensure_bucket w bucket)" bucket key
      "int (length file_bytes)" "sha256_hexdigest rt file_bytes" e ver_id]
  by (simp add: upload_object_def Let_def case_prod_beta)

lemma put_object_s3_hit:
  assumes "get_bucket (db w) bucket = Some b"
    and "existing_content (db w) (sha256_hexdigest rt body) = Some e"
  shows "put_object_s3 rt w bucket key body ver_id upload_uuid =
           (w\<lparr>db := fst (dedup_hit (db w) bucket key (int (length body))
                          (sha256_hexdigest rt body) e ver_id)\<rparr>,
            Inr (Response 200 (etag_header (md5_hexdigest rt body))))"
  using assms by (simp add: put_object_s3_def Let_def case_prod_beta)

lemma put_object_s3_no_bucket:
  assumes "get_bucket (db w) bucket = None"
  shows "put_object_s3 rt w bucket key body ver_id upload_uuid = (w, Inr (Response 404 []))"
  using assms by (simp add: put_object_s3_def)

text \<open>
  C6. A write whose digest is the key of a content row adds one to the refcount of that
  row, flips the prior latest row of the key and appends a version row with the drawn
  version id, the layout of the content row and the digest; it sends no request to a
  storage node and changes no file. \<open>upload_object\<close> does so after creating the bucket if
  it is missing and passing the quota gate, and answers with \<open>deduplicated = true\<close>, the
  version id and the digest. \<open>put_object_s3\<close>, which has no quota gate, does so when the
  bucket exists, and answers 200 with an ETag header; for a missing bucket it answers 404
  and changes nothing, whether or not the content is stored.
\<close>

theorem dedup_hit_write:
  "(check_quota (db (ensure_bucket w bucket)) bucket (int (length body)) = Inr qi \<longrightarrow>
    existing_content (db (ensure_bucket w bucket)) (sha256_hexdigest rt body) = Some e \<longrightarrow>
      upload_object rt w bucket key body consistency region ver_id =
        ((ensure_bucket w bucket)
           \<lparr>db := fst (dedup_hit (db (ensure_bucket w bucket)) bucket key
                         (int (length body)) (sha256_hexdigest rt body) e ver_id)\<rparr>,
         Inr (Json [(''status'', JStr ''ok''), (''bucket'', JStr bucket), (''key'', JStr key),
                    (''version_id'', JStr ver_id), (''deduplicated'', JBool True),
                    (''content_hash'', JStr (sha256_hexdigest rt body))])) \<and>
      files (fst (upload_object rt w bucket key body consistency region ver_id)) = files w \<and>
      sent (fst (upload_object rt w bucket key body consistency region ver_id)) = sent w) \<and>
   (get_bucket (db w) bucket = Some b \<longrightarrow>
    existing_content (db w) (sha256_hexdigest rt body) = Some e \<longrightarrow>
      put_object_s3 rt w bucket key body ver_id upload_uuid =
        (w\<lparr>db := fst (dedup_hit (db w) bucket key (int (length body))
                       (sha256_hexdigest rt body) e ver_id)\<rparr>,
         Inr (Response 200 (etag_header (md5_hexdigest rt body)))) \<and>
      files (fst (put_object_s3 rt w bucket key body ver_id upload_uuid)) = files w \<and>
      sent (fst (put_object_s3 rt w bucket key body ver_id upload_uuid)) = sent w) \<and>
   (get_bucket (db w) bucket = None \<longrightarrow>
      put_object_s3 rt w bucket key body ver_id upload_uuid = (w, Inr (Response 404 []))) \<and>
   content_store (fst (dedup_hit d bucket key sz h e ver_id)) =
     map (\<lambda>c. if c_content_hash c = h then c\<lparr>refcount := refcount c + 1\<rparr> else c)
       (content_store d) \<and>
   objects (fst (dedup_hit d bucket key sz h e ver_id)) =
     map (\<lambda>r. if row_id r = next_id d then r\<lparr>content_hash := Some h\<rparr> else r)
       (mark_first_not_latest bucket key (objects d)) @
     [\<lparr>row_id = next_id d, bucket_name = bucket, object_key = key, version_id = ver_id,
       is_latest = True, size_bytes = sz, shards = c_shards e, content_hash = Some h,
       created_at = now d\<rparr>]"
proof -
  have upl: "check_quota (db (ensure_bucket w bucket)) bucket (int (length body)) = Inr qi \<longrightarrow>
    existing_content (db (ensure_bucket w bucket)) (sha256_hexdigest rt body) = Some e \<longrightarrow>
      upload_object rt w bucket key body consistency region ver_id =
        ((ensure_bucket w bucket)
           \<lparr>db := fst (dedup_hit (db (ensure_bucket w bucket)) bucket key
                         (int (length body)) (sha256_hexdigest rt body) e ver_id)\<rparr>,
         Inr (Json [(''status'', JStr ''ok''), (''bucket'', JStr bucket), (''key'', JStr key),
                    (''version_id'', JStr ver_id), (''deduplicated'', JBool True),
                    (''content_hash'', JStr (sha256_hexdigest rt body))])) \<and>
      files (fst (upload_object rt w bucket key body consistency region ver_id)) = files w \<and>
      sent (fst (upload_object rt w bucket key body consistency region ver_id)) = sent w"
  proof (intro impI)
    assume a: "check_quota (db (ensure_bucket w bucket)) bucket (int (length body)) = Inr qi"
      and b: "existing_content (db (ensure_bucket w bucket)) (sha256_hexdigest rt body) = Some e"
    show "upload_object rt w bucket key body consistency region ver_id =
        ((ensure_bucket w bucket)
           \<lparr>db := fst (dedup_hit (db (ensure_bucket w bucket)) bucket key
                         (int (length body)) (sha256_hexdigest rt body) e ver_id)\<rparr>,
         Inr (Json [(''status'', JStr ''ok''), (''bucket'', JStr bucket), (''key'', JStr key),
                    (''version_id'', JStr ver_id), (''deduplicated'', JBool True),
                    (''content_hash'', JStr (sha256_hexdigest rt body))])) \<and>
      files (fst (upload_object rt w bucket key body consistency region ver_id)) = files w \<and>
      sent (fst (upload_object rt w bucket key body consistency region ver_id)) = sent w"
      by (simp add: upload_object_hit [OF a b] ensure_bucket_frame)
  qed
  have s3: "get_bucket (db w) bucket = Some b \<longrightarrow>
    existing_content (db w) (sha256_hexdigest rt body) = Some e \<longrightarrow>
      put_object_s3 rt w bucket key body ver_id upload_uuid =
        (w\<lparr>db := fst (dedup_hit (db w) bucket key (int (length body))
                       (sha256_hexdigest rt body) e ver_id)\<rparr>,
         Inr (Response 200 (etag_header (md5_hexdigest rt body)))) \<and>
      files (fst (put_object_s3 rt w bucket key body ver_id upload_uuid)) = files w \<and>
      sent (fst (put_object_s3 rt w bucket key body ver_id upload_uuid)) = sent w"
  proof (intro impI)
    assume a: "get_bucket (db w) bucket = Some b"
      and b: "existing_content (db w) (sha256_hexdigest rt body) = Some e"
    show "put_object_s3 rt w bucket key body ver_id upload_uuid =
        (w\<lparr>db := fst (dedup_hit (db w) bucket key (int (length body))
                       (sha256_hexdigest rt body) e ver_id)\<rparr>,
         Inr (Response 200 (etag_header (md5_hexdigest rt body)))) \<and>
      files (fst (put_object_s3 rt w bucket key body ver_id upload_uuid)) = files w \<and>
      sent (fst (put_object_s3 rt w bucket key body ver_id upload_uuid)) = sent w"
      by (simp add: put_object_s3_hit [OF a b])
  qed
  have nb: "get_bucket (db w) bucket = None \<longrightarrow>
      put_object_s3 rt w bucket key body ver_id upload_uuid = (w, Inr (Response 404 []))"
    by (intro impI) (erule put_object_s3_no_bucket)
  note rows = dedup_hit_rows [of d bucket key sz h e ver_id]
  show ?thesis
    by (intro conjI) (rule upl s3 nb rows [THEN conjunct1] rows [THEN conjunct2, THEN conjunct1])+
qed

text \<open>
  In \<open>one_key\<close> the byte 07 is stored once. A second upload of it, to \<open>b1/k2\<close>, is a hit
  on either endpoint; an S3 PUT of it to the missing bucket \<open>b2\<close> is answered 404.
\<close>

lemma one_key_hit:
  "check_quota (db (ensure_bucket one_key ''b1'')) ''b1'' (int (length [7::byte])) =
      Inr \<lparr>qi_current_objects = 1, qi_current_size_bytes = 1, qi_max_objects = 10000,
           qi_max_size_bytes = 10737418240, qi_objects_remaining = 9998,
           qi_bytes_remaining = 10737418238\<rparr>"
  "existing_content (db (ensure_bucket one_key ''b1'')) (sha256_hexdigest example_runtime [7]) =
      Some \<lparr>c_content_hash = ''07'', c_size_bytes = 1,
            c_shards =
              [\<lparr>sm_index = 0, sm_node_id = ''node1'', sm_shard_key = ''k1/u1/0''\<rparr>,
               \<lparr>sm_index = 1, sm_node_id = ''node2'', sm_shard_key = ''k1/u1/1''\<rparr>,
               \<lparr>sm_index = 2, sm_node_id = ''node3'', sm_shard_key = ''k1/u1/2''\<rparr>,
               \<lparr>sm_index = 3, sm_node_id = ''node4'', sm_shard_key = ''k1/u1/3''\<rparr>,
               \<lparr>sm_index = 4, sm_node_id = ''node5'', sm_shard_key = ''k1/u1/4''\<rparr>,
               \<lparr>sm_index = 5, sm_node_id = ''node6'', sm_shard_key = ''k1/u1/5''\<rparr>],
            refcount = 1\<rparr>"
  "get_bucket (db one_key) ''b1'' = Some (''b1'', False)"
  "get_bucket (db one_key) ''b2'' = None"
  by code_simp+

theorem dedup_hit_write_witness:
  "snd (upload_object example_runtime one_key ''b1'' ''k2'' [7] ''strong'' None ''v2'') =
     Inr (Json [(''status'', JStr ''ok''), (''bucket'', JStr ''b1''), (''key'', JStr ''k2''),
                (''version_id'', JStr ''v2''), (''deduplicated'', JBool True),
                (''content_hash'', JStr (sha256_hexdigest example_runtime [7]))]) \<and>
   sent (fst (upload_object example_runtime one_key ''b1'' ''k2'' [7] ''strong'' None ''v2'')) =
     sent one_key \<and>
   files (fst (upload_object example_runtime one_key ''b1'' ''k2'' [7] ''strong'' None ''v2'')) =
     files one_key \<and>
   snd (put_object_s3 example_runtime one_key ''b1'' ''k2'' [7] ''v2'' ''u2'') =
     Inr (Response 200 (etag_header (md5_hexdigest example_runtime [7]))) \<and>
   sent (fst (put_object_s3 example_runtime one_key ''b1'' ''k2'' [7] ''v2'' ''u2'')) =
     sent one_key \<and>
   put_object_s3 example_runtime one_key ''b2'' ''k2'' [7] ''v2'' ''u2'' =
     (one_key, Inr (Response 404 []))"
proof -
  note up = dedup_hit_write [where key = "''k2''" and consistency = "''strong''"
      and region = None and ver_id = "''v2''", THEN conjunct1, rule_format,
      OF one_key_hit(1,2)]
  note s3 = dedup_hit_write [where key = "''k2''" and ver_id = "''v2''"
      and upload_uuid = "''u2''", THEN conjunct2, THEN conjunct1, rule_format,
      OF one_key_hit(3) one_key_hit(2) [unfolded one_key_facts(2)]]
  note nb = dedup_hit_write [where key = "''k2''" and ver_id = "''v2''"
      and upload_uuid = "''u2''" and rt = example_runtime and body = "[7]",
      THEN conjunct2, THEN conjunct2, THEN conjunct1, rule_format, OF one_key_hit(4)]
  from up s3 nb show ?thesis
    by (simp add: ensure_bucket_frame)
qed

text \<open>
  The claim has every such write return \<open>deduplicated = true\<close> with the version id and the
  digest. The S3 adapter, on a hit, returns a bare 200 with an ETag.
\<close>

theorem s3_dedup_hit_response:
  "existing_content (db one_key) (sha256_hexdigest example_runtime [7]) \<noteq> None \<and>
   snd (put_object_s3 example_runtime one_key ''b1'' ''k2'' [7] ''v2'' ''u2'') =
     Inr (Response 200 (etag_header ''07''))"
  by code_simp

section \<open>Properties of the codec\<close>

lemma concat_slices: "concat (map (\<lambda>i. take cs (drop (i * cs) p)) [0..<n]) = take (n * cs) p"
proof (induction n)
  case 0
  show ?case by simp
next
  case (Suc n)
  have "take (Suc n * cs) p = take (n * cs) p @ take cs (drop (n * cs) p)"
    by (simp add: take_add [symmetric] add.commute)
  with Suc show ?case by simp
qed

lemma length_padded_data: "length (padded_data data) = ec_K * chunk_size data"
proof -
  have "length data \<le> chunk_size data * ec_K"
    by (simp add: chunk_size_def ec_K_def)
  then show ?thesis
    by (simp add: padded_data_def mult.commute)
qed

lemma concat_blocks: "concat (blocks data) = padded_data data"
  by (simp add: blocks_def concat_slices length_padded_data)

lemma length_blocks: "length (blocks data) = ec_K"
  by (simp add: blocks_def)

lemma block_lengths:
  assumes "b \<in> set (blocks data)"
  shows "length b = chunk_size data"
proof -
  from assms obtain i where i: "i < ec_K"
    and b: "b = take (chunk_size data) (drop (i * chunk_size data) (padded_data data))"
    by (auto simp: blocks_def)
  from i have "Suc i * chunk_size data \<le> ec_K * chunk_size data"
    by (intro mult_le_mono1) simp
  then show ?thesis
    by (simp add: b length_padded_data)
qed

lemma unpad: "slice_to (int (length data)) (padded_data data) = data"
  by (simp add: slice_to_def padded_data_def)

text \<open>
  What ec.py adds to the codec: if the decoder returns the blocks the encoder was given,
  \<open>decode_data\<close> returns the blob \<open>encode_data\<close> was given, whatever its length.
\<close>

lemma decode_data_of_blocks:
  assumes "length nums = ec_K"
    and "dec (map (\<lambda>i. enc (blocks B) ! nat i) nums) nums = Inr (blocks B)"
  shows "decode_data dec (map (\<lambda>i. encode_data enc B ! nat i) nums) nums
           (int (length B)) = Inr B"
  using assms by (simp add: decode_data_def encode_data_def concat_blocks unpad)

text \<open>
  C9. \<open>decode_data\<close> raises ValueError when it is given fewer than K shards, whatever the
  decoder. Given K or more, its result is a function of what the decoder returns on the
  first K shards and the first K indices: it raises exactly when the decoder raises there,
  with the decoder's error, and otherwise returns the joined blocks cut to
  \<open>original_size\<close>. It checks nothing about the indices itself, and the shards and indices
  after the first K have no effect.
\<close>

theorem decode_data_checks:
  "(length shs < ec_K \<longrightarrow> decode_data dec shs shard_nums original_size = Inl ValueError) \<and>
   (ec_K \<le> length shs \<longrightarrow>
      decode_data dec shs shard_nums original_size =
        (case dec (take ec_K shs) (take ec_K shard_nums) of
           Inl e \<Rightarrow> Inl e
         | Inr recovered_blocks \<Rightarrow> Inr (slice_to original_size (concat recovered_blocks))) \<and>
      (decode_data dec shs shard_nums original_size = Inl err \<longleftrightarrow>
         dec (take ec_K shs) (take ec_K shard_nums) = Inl err) \<and>
      decode_data dec shs shard_nums original_size =
        decode_data dec (take ec_K shs) (take ec_K shard_nums) original_size)"
  by (auto simp: decode_data_def ec_K_def split: sum.splits)

text \<open>
  With a decoder that accepts whatever it is given and returns the shards, \<open>decode_data\<close>
  returns for four equal indices followed by one out of range; with three shards it raises.
\<close>

theorem decode_data_checks_witness:
  "decode_data (\<lambda>blks nums. Inr blks) [[1], [2], [3], [4], [5]] [0, 0, 0, 0, 99] 3 =
     Inr [1, 2, 3] \<and>
   decode_data (\<lambda>blks nums. Inr blks) [[1], [2], [3]] [0, 1, 2] 3 = Inl ValueError"
proof -
  have a: "ec_K \<le> length [[1], [2], [3], [4], [5 :: byte]]"
    and b: "length [[1], [2], [3 :: byte]] < ec_K"
    by (simp_all add: ec_K_def)
  from decode_data_checks [where dec = "\<lambda>blks nums. Inr blks" and shard_nums = "[0, 0, 0, 0, 99]"
      and original_size = 3, THEN conjunct2, rule_format, OF a, THEN conjunct1]
    decode_data_checks [where dec = "\<lambda>blks nums. Inr blks" and shard_nums = "[0, 1, 2]"
      and original_size = 3, THEN conjunct1, rule_format, OF b]
  show ?thesis
    by (simp add: ec_K_def slice_to_def)
qed

text \<open>
  The claim has \<open>decode_data\<close> fail on any duplicate or out-of-range index. A fifth shard
  whose index repeats an earlier one, or lies outside 0..5, is cut off before the decoder
  sees it, and the bytes come back.
\<close>

theorem decode_ignores_extra_indices:
  "decode_data zfec_decode [[7], [0], [0], [0], [0]] [0, 1, 2, 3, 3] 1 = Inr [7] \<and>
   decode_data zfec_decode [[7], [0], [0], [0], [9]] [0, 1, 2, 3, 99] 1 = Inr [7]"
  by code_simp

section \<open>The round trip through the codec\<close>

subsection \<open>The field\<close>

lemma xtime_0: "xtime 0 = 0"
  by (simp add: xtime_def)

lemma xor_if_split:
  fixes p q c :: byte
  shows "(p XOR q) XOR (if bx \<noteq> by then c else 0) =
         (p XOR (if bx then c else 0)) XOR (q XOR (if by then c else 0))"
  by (cases bx; cases "by") (simp_all add: ac_simps)

lemma xtime_xor: "xtime (x XOR y) = xtime x XOR xtime y"
  unfolding xtime_def push_bit_xor bit_xor_iff by (rule xor_if_split)

lemma gf_mul_bits_0: "gf_mul_bits n a 0 = 0"
  by (induction n arbitrary: a) (simp_all add: xtime_0)

lemma gf_mul_bits_xor_right:
  "gf_mul_bits n a (x XOR y) = gf_mul_bits n a x XOR gf_mul_bits n a y"
  by (induction n arbitrary: a x y) (simp_all add: xtime_xor ac_simps)

lemma gf_mul_bits_zero_left: "gf_mul_bits n 0 x = 0"
  by (induction n arbitrary: x) simp_all

lemma gf_mul_bits_xor_left:
  "gf_mul_bits n (a XOR b) x = gf_mul_bits n a x XOR gf_mul_bits n b x"
  by (induction n arbitrary: a b x) (simp_all add: bit_xor_iff drop_bit_eq_div [symmetric] ac_simps)

lemma gf_mul_bits_xtime: "gf_mul_bits n a (xtime x) = xtime (gf_mul_bits n a x)"
  by (induction n arbitrary: a x) (simp_all add: xtime_xor xtime_0)


lemma gf_mul_bits_top:
  "gf_mul_bits (Suc n) a x =
     gf_mul_bits n a x XOR (if bit a n then (xtime ^^ n) x else 0)"
proof (induction n arbitrary: a x)
  case 0
  show ?case by simp
next
  case (Suc n)
  have "gf_mul_bits (Suc (Suc n)) a x =
      (if bit a 0 then x else 0) XOR gf_mul_bits (Suc n) (drop_bit 1 a) (xtime x)"
    by simp
  also have "\<dots> = (if bit a 0 then x else 0) XOR
      (gf_mul_bits n (drop_bit 1 a) (xtime x) XOR
       (if bit (drop_bit 1 a) n then (xtime ^^ n) (xtime x) else 0))"
    by (simp only: Suc.IH)
  also have "\<dots> = gf_mul_bits (Suc n) a x XOR
      (if bit a (Suc n) then (xtime ^^ Suc n) x else 0)"
    by (simp add: bit_drop_bit_eq funpow_swap1 ac_simps)
  finally show ?case .
qed

lemma gf_mul_bits_take_bit: "gf_mul_bits n (take_bit n a) x = gf_mul_bits n a x"
proof (induction n arbitrary: a x)
  case 0
  show ?case by simp
next
  case (Suc n)
  have "drop_bit 1 (take_bit (Suc n) a) = take_bit n (drop_bit 1 a)"
    by (simp add: drop_bit_take_bit)
  moreover have "bit (take_bit (Suc n) a) 0 = bit a 0"
    by (simp add: bit_take_bit_iff)
  ultimately show ?case
    using Suc.IH [of "drop_bit 1 a" "xtime x"] by (simp del: take_bit_Suc drop_bit_Suc)
qed

lemma drop_push_byte: "drop_bit 1 (push_bit 1 (b::byte)) = take_bit 7 b"
proof (rule bit_eqI)
  fix n
  have "bit (drop_bit 1 (push_bit 1 b)) n \<longleftrightarrow> Suc n < 8 \<and> bit b n"
    by (simp only: bit_drop_bit_eq o_apply bit_push_bit_iff possible_bit_word) simp
  also have "\<dots> \<longleftrightarrow> bit (take_bit 7 b) n"
    by (simp only: bit_take_bit_iff) auto
  finally show "bit (drop_bit 1 (push_bit 1 b)) n \<longleftrightarrow> bit (take_bit 7 b) n" .
qed

lemma gf_mul_push_bit: "gf_mul (push_bit 1 b) x = gf_mul_bits 7 b (xtime x)"
proof -
  have "gf_mul (push_bit 1 b) x = gf_mul_bits (Suc 7) (push_bit 1 b) x"
    by (simp add: gf_mul_def)
  also have "\<dots> = gf_mul_bits 7 (drop_bit 1 (push_bit 1 b)) (xtime x)"
    by (simp only: gf_mul_bits.simps bit_push_bit_iff) simp
  also have "\<dots> = gf_mul_bits 7 b (xtime x)"
    by (simp only: drop_push_byte gf_mul_bits_take_bit)
  finally show ?thesis .
qed

lemma byte_decomp:
  "(x::byte) = (x AND 1) XOR (x AND 2) XOR (x AND 4) XOR (x AND 8) XOR
               (x AND 16) XOR (x AND 32) XOR (x AND 64) XOR (x AND 128)"
proof -
  have "(x AND 1) XOR (x AND 2) XOR (x AND 4) XOR (x AND 8) XOR
        (x AND 16) XOR (x AND 32) XOR (x AND 64) XOR (x AND 128) =
        x AND (1 XOR 2 XOR 4 XOR 8 XOR 16 XOR 32 XOR 64 XOR 128)"
    by (simp only: bit.conj_xor_distrib)
  also have "(1 XOR 2 XOR 4 XOR 8 XOR 16 XOR 32 XOR 64 XOR 128 :: byte) = - 1"
    by simp
  finally show ?thesis by simp
qed

lemma and_exp_byte: "(x::byte) AND 2 ^ i = (if bit x i then 2 ^ i else 0)"
  by (rule bit_eqI) (auto simp: bit_simps)

lemma and_basis:
  "(x::byte) AND 1 = (if bit x 0 then 1 else 0)"
  "(x::byte) AND 2 = (if bit x 1 then 2 else 0)"
  "(x::byte) AND 4 = (if bit x 2 then 4 else 0)"
  "(x::byte) AND 8 = (if bit x 3 then 8 else 0)"
  "(x::byte) AND 16 = (if bit x 4 then 16 else 0)"
  "(x::byte) AND 32 = (if bit x 5 then 32 else 0)"
  "(x::byte) AND 64 = (if bit x 6 then 64 else 0)"
  "(x::byte) AND 128 = (if bit x 7 then 128 else 0)"
  using and_exp_byte [of x 0] and_exp_byte [of x 1] and_exp_byte [of x 2] and_exp_byte [of x 3]
    and_exp_byte [of x 4] and_exp_byte [of x 5] and_exp_byte [of x 6] and_exp_byte [of x 7]
  by simp_all

text \<open>Two additive maps on bytes that agree on the eight powers of two agree everywhere.\<close>

lemma byte_basis:
  fixes f g :: "byte \<Rightarrow> byte"
  assumes f: "\<And>x y. f (x XOR y) = f x XOR f y"
    and g: "\<And>x y. g (x XOR y) = g x XOR g y"
    and eq: "f 1 = g 1" "f 2 = g 2" "f 4 = g 4" "f 8 = g 8"
      "f 16 = g 16" "f 32 = g 32" "f 64 = g 64" "f 128 = g 128"
  shows "f x = g x"
proof -
  have f0: "f 0 = 0" using f [of 0 0] by simp
  have g0: "g 0 = 0" using g [of 0 0] by simp
  have "f x = f ((x AND 1) XOR (x AND 2) XOR (x AND 4) XOR (x AND 8) XOR
               (x AND 16) XOR (x AND 32) XOR (x AND 64) XOR (x AND 128))"
    using byte_decomp [of x] by simp
  also have "\<dots> = g ((x AND 1) XOR (x AND 2) XOR (x AND 4) XOR (x AND 8) XOR
               (x AND 16) XOR (x AND 32) XOR (x AND 64) XOR (x AND 128))"
    by (simp only: f g and_basis) (simp add: f0 g0 eq)
  also have "\<dots> = g x"
    using byte_decomp [of x] by simp
  finally show ?thesis .
qed

lemma funpow_xtime_xor: "(xtime ^^ n) (x XOR y) = (xtime ^^ n) x XOR (xtime ^^ n) y"
  by (induction n) (simp_all add: xtime_xor)

lemma gf_mul_xor_right: "gf_mul a (x XOR y) = gf_mul a x XOR gf_mul a y"
  by (simp add: gf_mul_def gf_mul_bits_xor_right)

lemma gf_mul_xor_left: "gf_mul (a XOR b) x = gf_mul a x XOR gf_mul b x"
  by (simp add: gf_mul_def gf_mul_bits_xor_left)

lemma xtime8_basis:
  "(xtime ^^ 8) 1 = gf_mul 29 1" "(xtime ^^ 8) 2 = gf_mul 29 2"
  "(xtime ^^ 8) 4 = gf_mul 29 4" "(xtime ^^ 8) 8 = gf_mul 29 8"
  "(xtime ^^ 8) 16 = gf_mul 29 16" "(xtime ^^ 8) 32 = gf_mul 29 32"
  "(xtime ^^ 8) 64 = gf_mul 29 64" "(xtime ^^ 8) 128 = gf_mul 29 128"
  by code_simp+

lemma xtime8: "(xtime ^^ 8) x = gf_mul 29 x"
  by (rule byte_basis [of "xtime ^^ 8" "gf_mul 29"])
    (simp_all only: funpow_xtime_xor gf_mul_xor_right xtime8_basis)

lemma gf_mul_0_left: "gf_mul 0 x = 0"
  by (simp add: gf_mul_def gf_mul_bits_zero_left)

lemma gf_mul_xtime_left: "gf_mul (xtime b) x = xtime (gf_mul b x)"
proof -
  have "(xtime ^^ Suc 7) x = (xtime ^^ 7) (xtime x)"
    by (simp only: funpow.simps o_apply funpow_swap1)
  then have e: "gf_mul 29 x = (xtime ^^ 7) (xtime x)"
    using xtime8 [of x] by simp
  have c: "gf_mul (if bit b 7 then 29 else 0) x = (if bit b 7 then (xtime ^^ 7) (xtime x) else 0)"
    by (simp only: e [symmetric] gf_mul_0_left if_distrib [of "\<lambda>a. gf_mul a x"])
  have "gf_mul (xtime b) x =
      gf_mul (push_bit 1 b) x XOR gf_mul (if bit b 7 then 29 else 0) x"
    by (simp only: xtime_def gf_mul_xor_left)
  also have "\<dots> = gf_mul_bits 7 b (xtime x) XOR (if bit b 7 then (xtime ^^ 7) (xtime x) else 0)"
    by (simp only: gf_mul_push_bit c)
  also have "\<dots> = gf_mul_bits (Suc 7) b (xtime x)"
    by (simp only: gf_mul_bits_top)
  also have "\<dots> = xtime (gf_mul b x)"
    by (simp add: gf_mul_def gf_mul_bits_xtime del: gf_mul_bits.simps)
  finally show ?thesis .
qed

lemma gf_mul_assoc_bits: "gf_mul (gf_mul_bits n a b) x = gf_mul_bits n a (gf_mul b x)"
proof (induction n arbitrary: a b)
  case 0
  show ?case by (simp add: gf_mul_def gf_mul_bits_zero_left)
next
  case (Suc n)
  show ?case
    by (simp add: gf_mul_xor_left Suc.IH gf_mul_xtime_left)
      (simp add: gf_mul_def gf_mul_bits_zero_left)
qed

lemma gf_mul_assoc: "gf_mul (gf_mul a b) x = gf_mul a (gf_mul b x)"
  using gf_mul_assoc_bits [of 8 a b x] by (simp add: gf_mul_def)

lemma gf_mul_0_right: "gf_mul a 0 = 0"
  by (simp add: gf_mul_def gf_mul_bits_0)

lemma gf_mul_1_left: "gf_mul 1 x = x"
  by (simp add: gf_mul_def eval_nat_numeral gf_mul_bits_zero_left)

subsection \<open>The decoding matrices\<close>

lemma gf_mul_bits_numeral:
  "gf_mul_bits (numeral k) a x =
     (if bit a 0 then x else 0) XOR gf_mul_bits (pred_numeral k) (drop_bit 1 a) (xtime x)"
  by (simp add: numeral_eq_Suc)

lemma gf_mul_bits_1: "gf_mul_bits (Suc 0) a x = (if bit a 0 then x else 0)"
  by simp

lemma table_entries: "list_all (\<lambda>(s, d). decodes s d) decode_table"
  by (simp add: decodes_def square4_def enc_rows_def enc_matrix_def mat_mul_def identity4_def
      decode_table_def gf_mul_0_left gf_mul_1_left gf_mul_0_right
      gf_mul_def gf_mul_bits_numeral gf_mul_bits_1 xtime_def del: gf_mul_bits.simps)

lemma length4E:
  assumes "length s = 4"
  obtains a b c d where "s = [a, b, c, d]"
  using assms by (auto simp: length_Suc_conv eval_nat_numeral)

lemma table_key_list:
  "map fst decode_table =
     [[0, 1, 2, 3], [0, 1, 2, 4], [0, 1, 2, 5], [0, 1, 3, 4], [0, 1, 3, 5], [0, 1, 4, 5],
      [0, 2, 3, 4], [0, 2, 3, 5], [0, 2, 4, 5], [0, 3, 4, 5], [1, 2, 3, 4], [1, 2, 3, 5],
      [1, 2, 4, 5], [1, 3, 4, 5], [2, 3, 4, 5]]"
  by (simp add: decode_table_def)

lemma table_keys:
  assumes "sorted s" and "distinct s" and "length s = 4" and "list_all (\<lambda>i. i < 6) s"
  shows "s \<in> set (map fst decode_table)"
proof -
  from assms(3) obtain a b c d :: nat where s: "s = [a, b, c, d]"
    by (rule length4E)
  from assms(1,2,4) have o: "a < b" "b < c" "c < d" "d < 6"
    by (auto simp: s)
  then have "a = 0 \<or> a = 1 \<or> a = 2" "b = 1 \<or> b = 2 \<or> b = 3" "c = 2 \<or> c = 3 \<or> c = 4"
    "d = 3 \<or> d = 4 \<or> d = 5"
    by arith+
  with o(1,2,3) show ?thesis
    unfolding s table_key_list by (elim disjE; simp)
qed

subsection \<open>Left inverses\<close>

lemma dot_rows4:
  "dot [a0, a1, a2, a3]
     [dot [e00, e01, e02, e03] [c0, c1, c2, c3], dot [e10, e11, e12, e13] [c0, c1, c2, c3],
      dot [e20, e21, e22, e23] [c0, c1, c2, c3], dot [e30, e31, e32, e33] [c0, c1, c2, c3]] =
   dot [dot [a0, a1, a2, a3] [e00, e10, e20, e30], dot [a0, a1, a2, a3] [e01, e11, e21, e31],
        dot [a0, a1, a2, a3] [e02, e12, e22, e32], dot [a0, a1, a2, a3] [e03, e13, e23, e33]]
     [c0, c1, c2, c3]"
  by (simp add: gf_mul_xor_right gf_mul_xor_left gf_mul_assoc gf_mul_0_right ac_simps)

lemma square4E:
  assumes "square4 m"
  obtains m00 m01 m02 m03 m10 m11 m12 m13 m20 m21 m22 m23 m30 m31 m32 m33
  where "m = [[m00, m01, m02, m03], [m10, m11, m12, m13],
              [m20, m21, m22, m23], [m30, m31, m32, m33]]"
proof -
  from assms obtain r0 r1 r2 r3 where m: "m = [r0, r1, r2, r3]"
    by (auto simp: square4_def elim: length4E)
  from assms have "length r0 = 4" "length r1 = 4" "length r2 = 4" "length r3 = 4"
    by (simp_all add: square4_def m)
  then show thesis
    by (elim length4E) (rule that, simp add: m)
qed

text \<open>Byte by byte: a left inverse undoes the linear map.\<close>

lemma left_inverse_bytes:
  assumes "square4 d" and "square4 e" and "mat_mul d e = identity4" and "length c = 4"
  shows "map (\<lambda>a. dot a (map (\<lambda>r. dot r c) e)) d = c"
proof -
  from assms(1) obtain d00 d01 d02 d03 d10 d11 d12 d13 d20 d21 d22 d23 d30 d31 d32 d33
    where d: "d = [[d00, d01, d02, d03], [d10, d11, d12, d13],
                   [d20, d21, d22, d23], [d30, d31, d32, d33]]"
    by (rule square4E)
  from assms(2) obtain e00 e01 e02 e03 e10 e11 e12 e13 e20 e21 e22 e23 e30 e31 e32 e33
    where e: "e = [[e00, e01, e02, e03], [e10, e11, e12, e13],
                   [e20, e21, e22, e23], [e30, e31, e32, e33]]"
    by (rule square4E)
  from assms(4) obtain c0 c1 c2 c3 where c: "c = [c0, c1, c2, c3]"
    by (rule length4E)
  have p: "dot [d00, d01, d02, d03] [e00, e10, e20, e30] = 1"
    "dot [d00, d01, d02, d03] [e01, e11, e21, e31] = 0"
    "dot [d00, d01, d02, d03] [e02, e12, e22, e32] = 0"
    "dot [d00, d01, d02, d03] [e03, e13, e23, e33] = 0"
    "dot [d10, d11, d12, d13] [e00, e10, e20, e30] = 0"
    "dot [d10, d11, d12, d13] [e01, e11, e21, e31] = 1"
    "dot [d10, d11, d12, d13] [e02, e12, e22, e32] = 0"
    "dot [d10, d11, d12, d13] [e03, e13, e23, e33] = 0"
    "dot [d20, d21, d22, d23] [e00, e10, e20, e30] = 0"
    "dot [d20, d21, d22, d23] [e01, e11, e21, e31] = 0"
    "dot [d20, d21, d22, d23] [e02, e12, e22, e32] = 1"
    "dot [d20, d21, d22, d23] [e03, e13, e23, e33] = 0"
    "dot [d30, d31, d32, d33] [e00, e10, e20, e30] = 0"
    "dot [d30, d31, d32, d33] [e01, e11, e21, e31] = 0"
    "dot [d30, d31, d32, d33] [e02, e12, e22, e32] = 0"
    "dot [d30, d31, d32, d33] [e03, e13, e23, e33] = 1"
    using assms(3) unfolding d e mat_mul_def identity4_def by simp_all
  have u: "dot [1, 0, 0, 0] [c0, c1, c2, c3] = c0" "dot [0, 1, 0, 0] [c0, c1, c2, c3] = c1"
    "dot [0, 0, 1, 0] [c0, c1, c2, c3] = c2" "dot [0, 0, 0, 1] [c0, c1, c2, c3] = c3"
    by (simp_all add: gf_mul_0_left gf_mul_1_left)
  show ?thesis
    unfolding d e c list.map dot_rows4 p u ..
qed

lemma column_apply_matrix:
  "p < n \<Longrightarrow> column p (apply_matrix e n blks) = map (\<lambda>r. dot r (column p blks)) e"
  by (simp add: column_def apply_matrix_def)

lemma length_apply_matrix: "b \<in> set (apply_matrix m n blks) \<Longrightarrow> length b = n"
  by (auto simp: apply_matrix_def)

text \<open>Block by block: applying a left inverse to the image of the blocks gives the blocks.\<close>

lemma left_inverse_blocks:
  assumes "square4 d" and "square4 e" and "mat_mul d e = identity4"
    and "length blks = 4" and "list_all (\<lambda>b. length b = n) blks"
  shows "apply_matrix d n (apply_matrix e n blks) = blks"
proof -
  have col: "map (\<lambda>a. dot a (column p (apply_matrix e n blks))) d = column p blks" if "p < n" for p
  proof -
    have "length (column p blks) = 4"
      by (simp add: column_def assms(4))
    from left_inverse_bytes [OF assms(1,2,3) this] show ?thesis
      by (simp only: column_apply_matrix [OF that])
  qed
  have len_d: "length d = 4"
    using assms(1) by (simp add: square4_def)
  show ?thesis
  proof (rule nth_equalityI)
    show "length (apply_matrix d n (apply_matrix e n blks)) = length blks"
      by (simp add: apply_matrix_def len_d assms(4))
  next
    fix k
    assume "k < length (apply_matrix d n (apply_matrix e n blks))"
    then have k: "k < 4"
      by (simp add: apply_matrix_def len_d)
    have lk: "length (blks ! k) = n"
      using assms(4,5) k by (simp add: list_all_length)
    have "apply_matrix d n (apply_matrix e n blks) ! k =
        map (\<lambda>p. dot (d ! k) (column p (apply_matrix e n blks))) [0..<n]"
      using k by (simp add: apply_matrix_def [of d] len_d)
    also have "\<dots> = map (\<lambda>p. blks ! k ! p) [0..<n]"
    proof (rule map_cong [OF refl])
      fix p
      assume "p \<in> set [0..<n]"
      then have "p < n" by simp
      from col [OF this] have "map (\<lambda>a. dot a (column p (apply_matrix e n blks))) d ! k =
          column p blks ! k"
        by simp
      then show "dot (d ! k) (column p (apply_matrix e n blks)) = blks ! k ! p"
        using k by (simp add: len_d column_def assms(4))
    qed
    also have "\<dots> = blks ! k"
      using map_nth [of "blks ! k"] by (simp only: lk)
    finally show "apply_matrix d n (apply_matrix e n blks) ! k = blks ! k" .
  qed
qed

subsection \<open>The decoder\<close>

lemma insort_key_graph:
  "insort_key fst (j, g j) (map (\<lambda>i. (i, g i)) ys) = map (\<lambda>i. (i, g i)) (insort j ys)"
  by (induction ys) simp_all

lemma sort_key_graph:
  "sort_key fst (map (\<lambda>i. (i, g i)) js) = map (\<lambda>i. (i, g i)) (sort js)"
  by (induction js) (simp_all add: insort_key_graph)

lemma select_rows:
  assumes "list_all (\<lambda>i. i < 6) s"
  shows "map (\<lambda>i. apply_matrix enc_matrix n blks ! i) s = apply_matrix (enc_rows s) n blks"
proof -
  have "length enc_matrix = 6"
    by (simp add: enc_matrix_def)
  with assms show ?thesis
    by (auto simp: apply_matrix_def enc_rows_def list_all_iff)
qed

lemma table_lookup:
  assumes "sorted s" and "distinct s" and "length s = 4" and "list_all (\<lambda>i. i < 6) s"
  obtains d where "map_of decode_table s = Some d" and "decodes s d"
proof -
  from table_keys [OF assms] obtain d where "map_of decode_table s = Some d"
    by (cases "map_of decode_table s") (auto simp: map_of_eq_None_iff)
  moreover from this have "(s, d) \<in> set decode_table"
    by (rule map_of_SomeD)
  with table_entries have "decodes s d"
    by (auto simp: list_all_iff)
  ultimately show thesis by (rule that)
qed

text \<open>
  The contract of the codec: from any four of the six shards of four blocks of one length,
  handed over in any order with their share numbers, the decoder returns the four blocks.
\<close>

lemma zfec_contract:
  assumes "length blks = 4" and "list_all (\<lambda>b. length b = n) blks"
    and "length nums = 4" and "valid_sharenums nums"
  shows "zfec_decode (map (\<lambda>i. zfec_encode blks ! nat i) nums) nums = Inr blks"
proof -
  let ?sh = "apply_matrix enc_matrix n blks"
  let ?s = "sort (map nat nums)"
  from assms(1,2) have n: "length (hd blks) = n"
    by (cases blks) simp_all
  then have enc: "zfec_encode blks = ?sh"
    by (simp add: zfec_encode_def)
  from assms(4) have range: "list_all (\<lambda>i. 0 \<le> i \<and> i < 6) nums" and dist: "distinct nums"
    by (simp_all add: valid_sharenums_def ec_M_def)
  have small: "list_all (\<lambda>i. i < 6) (map nat nums)"
    using range by (auto simp: list_all_iff)
  have "inj_on nat (set nums)"
  proof (rule inj_onI)
    fix x y
    assume "x \<in> set nums" and "y \<in> set nums" and e: "nat x = nat y"
    with range have "0 \<le> x" and "0 \<le> y"
      by (auto simp: list_all_iff)
    with e show "x = y"
      by (simp add: eq_nat_nat_iff)
  qed
  with dist have d: "distinct (map nat nums)"
    by (simp add: distinct_map)
  have s: "sorted ?s" "distinct ?s" "length ?s = 4" "list_all (\<lambda>i. i < 6) ?s"
    using d small assms(3) by (simp_all add: list_all_iff)
  have sel: "map (\<lambda>i. ?sh ! nat i) nums = map (\<lambda>j. ?sh ! j) (map nat nums)"
    by (simp add: comp_def)
  have lens: "list_all (\<lambda>b. length b = n) (map (\<lambda>i. ?sh ! nat i) nums)"
    unfolding sel select_rows [OF small]
    by (auto simp: list_all_iff dest: length_apply_matrix)
  from assms(3) obtain i0 rest where nums: "nums = i0 # rest"
    by (cases nums) simp_all
  from lens have hd_len: "length (hd (map (\<lambda>i. ?sh ! nat i) nums)) = n"
    by (simp add: nums)
  have pairs: "sort_key fst (zip (map nat nums) (map (\<lambda>i. ?sh ! nat i) nums)) =
      map (\<lambda>j. (j, ?sh ! j)) ?s"
  proof -
    have "zip (map nat nums) (map (\<lambda>i. ?sh ! nat i) nums) =
        map (\<lambda>j. (j, ?sh ! j)) (map nat nums)"
      by (simp add: zip_map_map zip_same_conv_map comp_def)
    then show ?thesis
      by (simp only: sort_key_graph)
  qed
  from table_lookup [OF s] obtain dm where
    dm: "map_of decode_table ?s = Some dm" and ok: "decodes ?s dm" .
  from ok have inv: "square4 dm" "square4 (enc_rows ?s)" "mat_mul dm (enc_rows ?s) = identity4"
    by (simp_all add: decodes_def)
  have "zfec_decode (map (\<lambda>i. ?sh ! nat i) nums) nums =
      Inr (apply_matrix dm n (map (\<lambda>j. ?sh ! j) ?s))"
    using assms(3,4) lens dm
    by (simp add: zfec_decode_def ec_K_def hd_len pairs Let_def comp_def)
  also have "map (\<lambda>j. ?sh ! j) ?s = apply_matrix (enc_rows ?s) n blks"
    by (rule select_rows [OF s(4)])
  also have "apply_matrix dm n (apply_matrix (enc_rows ?s) n blks) = blks"
    by (rule left_inverse_blocks [OF inv assms(1,2)])
  finally show ?thesis
    by (simp only: enc)
qed

text \<open>
  C4. For every blob \<open>B\<close>, the empty one and those whose length is not a multiple of four
  included, and every list of four different share numbers between 0 and 5, in any order:
  decoding the shards of \<open>encode_data B\<close> with those numbers, together with the numbers
  and the length of \<open>B\<close>, returns \<open>B\<close>.
\<close>

theorem encode_decode_roundtrip:
  assumes "length shard_nums = ec_K" and "valid_sharenums shard_nums"
  shows "decode_data zfec_decode (map (\<lambda>i. encode_data zfec_encode B ! nat i) shard_nums)
           shard_nums (int (length B)) = Inr B"
proof -
  have "list_all (\<lambda>b. length b = chunk_size B) (blocks B)"
    by (simp add: list_all_iff block_lengths)
  with assms have "zfec_decode (map (\<lambda>i. zfec_encode (blocks B) ! nat i) shard_nums) shard_nums =
      Inr (blocks B)"
    by (intro zfec_contract) (simp_all add: length_blocks ec_K_def)
  with assms(1) show ?thesis
    by (rule decode_data_of_blocks)
qed

theorem encode_decode_roundtrip_witness:
  "length [5, 0, 4, 2 :: int] = ec_K \<and> valid_sharenums [5, 0, 4, 2] \<and>
   encode_data zfec_encode [104, 101, 108, 108, 111] =
     [[104, 101], [108, 108], [111, 0], [0, 0], [215, 126], [169, 178]] \<and>
   decode_data zfec_decode [[169, 178], [104, 101], [215, 126], [111, 0]] [5, 0, 4, 2] 5 =
     Inr [104, 101, 108, 108, 111] \<and>
   decode_data zfec_decode [[], [], [], []] [1, 3, 4, 5] 0 = Inr []"
proof -
  have a: "length [5, 0, 4, 2 :: int] = ec_K" and a': "length [1, 3, 4, 5 :: int] = ec_K"
    by (simp_all add: ec_K_def)
  have b: "valid_sharenums [5, 0, 4, 2]" and b': "valid_sharenums [1, 3, 4, 5]"
    by (simp_all add: valid_sharenums_def ec_M_def)
  have e: "encode_data zfec_encode [104, 101, 108, 108, 111] =
      [[104, 101], [108, 108], [111, 0], [0, 0], [215, 126], [169, 178]]"
    by code_simp
  have e': "encode_data zfec_encode [] = [[], [], [], [], [], []]"
    by code_simp
  show ?thesis
    using encode_decode_roundtrip [OF a b, of "[104, 101, 108, 108, 111]"]
      encode_decode_roundtrip [OF a' b', of "[]"] a b
    by (simp add: e e')
qed

end
